theory Spec2Isabelle
  imports Main "HOL-Library.Finite_Map" "HOL-Library.Sublist"
begin

section \<open>Values, errors and results\<close>

text \<open>
  The extension (\<^verbatim>\<open>src/extension.ts\<close>) builds two XML descriptors with the
  \<^verbatim>\<open>xmlbuilder\<close> package and writes them, with two directories, through
  Node's \<^verbatim>\<open>fs\<close> module. A JavaScript string is modelled as a \<open>string\<close>
  (code units \<open>0..255\<close>). A thrown exception (a rejected promise of an
  \<^verbatim>\<open>async\<close> function) is the \<open>Inl\<close> of a result.
\<close>

datatype errcode = ENOENT | ENOTDIR | EEXIST | EISDIR | ERR_INVALID_ARG_VALUE

datatype error =
    InvalidCharacter string nat
  | TypeError
  | FsError errcode string

definition bindE :: "error + 'a \<Rightarrow> ('a \<Rightarrow> error + 'b) \<Rightarrow> error + 'b" where
  "bindE r f = (case r of Inl e \<Rightarrow> Inl e | Inr x \<Rightarrow> f x)"

section \<open>The XML builder (package xmlbuilder, version 10.1.1)\<close>

text \<open>
  \<^verbatim>\<open>package.json\<close> pins \<^verbatim>\<open>"xmlbuilder": "^10.1.1"\<close>. The package is
  not part of the repository; the definitions of this section follow its
  \<^verbatim>\<open>XMLStringifier\<close> (escaping, and the validation of characters in names and
  element text; attribute values are escaped and not validated), its
  \<^verbatim>\<open>XMLNode.element\<close> (expansion of a JavaScript object into elements) and its
  \<^verbatim>\<open>XMLStringWriter\<close> with \<^verbatim>\<open>{pretty: true}\<close> (indentation of two spaces,
  newline \<open>\<newline>\<close>, no offset), restricted to what \<^verbatim>\<open>extension.ts\<close> calls.
  The spec (section 4.1) and the repository's tests give the text of the two
  descriptors for plain values; the writer below produces that text.
\<close>

subsection \<open>XMLStringifier\<close>

text \<open>\<^verbatim>\<open>str.replace(/c/g, rep)\<close> for a single character \<open>c\<close>.\<close>

definition replaceAll :: "char \<Rightarrow> string \<Rightarrow> string \<Rightarrow> string" where
  "replaceAll c rep str = concat (map (\<lambda>x. if x = c then rep else [x]) str)"

text \<open>
  \<^verbatim>\<open>elEscape\<close>: \<^verbatim>\<open>str.replace(/&/g, '&amp;').replace(/</g, '&lt;')
  .replace(/>/g, '&gt;').replace(/\r/g, '&#xD;')\<close>
  (the option \<^verbatim>\<open>noDoubleEncoding\<close> is not set by the extension).
\<close>

definition elEscape :: "string \<Rightarrow> string" where
  "elEscape str =
     replaceAll (CHR 0x0D) ''&#xD;''
       (replaceAll CHR ''>'' ''&gt;''
         (replaceAll CHR ''<'' ''&lt;''
           (replaceAll CHR ''&'' ''&amp;'' str)))"

text \<open>
  \<^verbatim>\<open>attEscape\<close>: \<^verbatim>\<open>str.replace(/&/g, '&amp;').replace(/</g, '&lt;')
  .replace(/"/g, '&quot;').replace(/\t/g, '&#x9;').replace(/\n/g, '&#xA;')
  .replace(/\r/g, '&#xD;')\<close>.
\<close>

definition attEscape :: "string \<Rightarrow> string" where
  "attEscape str =
     replaceAll (CHR 0x0D) ''&#xD;''
       (replaceAll (CHR 0x0A) ''&#xA;''
         (replaceAll (CHR 0x09) ''&#x9;''
           (replaceAll (CHR 0x22) ''&quot;''
             (replaceAll CHR ''<'' ''&lt;''
               (replaceAll CHR ''&'' ''&amp;'' str)))))"

text \<open>
  \<^verbatim>\<open>assertLegalChar\<close> matches
  \<^verbatim>\<open>/[\0\uFFFE\uFFFF]|[\uD800-\uDBFF](?![\uDC00-\uDFFF])|(?:[^\uD800-\uDBFF]|^)[\uDC00-\uDFFF]/\<close>
  and throws \<^verbatim>\<open>Error("Invalid character in string: " + str + " at index " + res.index)\<close>
  on a match. Of the code units a \<open>char\<close> can hold, only NUL matches.
\<close>

primrec illegalCharIndex :: "string \<Rightarrow> nat option" where
  "illegalCharIndex [] = None"
| "illegalCharIndex (c # cs) =
     (if c = CHR 0x00 then Some 0 else map_option Suc (illegalCharIndex cs))"

definition assertLegalChar :: "string \<Rightarrow> error + string" where
  "assertLegalChar str =
     (case illegalCharIndex str of
        Some i \<Rightarrow> Inl (InvalidCharacter str i)
      | None \<Rightarrow> Inr str)"

definition eleName :: "string \<Rightarrow> error + string" where
  "eleName val = assertLegalChar val"

definition eleText :: "string \<Rightarrow> error + string" where
  "eleText val = assertLegalChar (elEscape val)"

definition attName :: "string \<Rightarrow> string" where
  "attName val = val"

definition attValue :: "string \<Rightarrow> string" where
  "attValue val = attEscape val"

subsection \<open>The document tree\<close>

text \<open>
  An element has a name, its attributes in insertion order and its children; a text
  node holds its value, escaped when the node is created. The document holds the XML
  declaration and its top-level elements. The builder's node objects are mutable and
  shared; here a node is addressed by its path of child indices from the document, and
  every builder call returns the updated document.
\<close>

datatype XMLNode =
    XMLElement string "(string \<times> string) list" "XMLNode list"
  | XMLText string

record XMLDocument =
  version :: string
  encoding :: "string option"
  children :: "XMLNode list"

type_synonym nodeRef = "nat list"

fun nodeValue :: "XMLNode \<Rightarrow> string option" where
  "nodeValue (XMLText v) = Some v"
| "nodeValue (XMLElement nm atts cs) = None"

fun childrenOf :: "XMLNode \<Rightarrow> XMLNode list" where
  "childrenOf (XMLElement nm atts cs) = cs"
| "childrenOf (XMLText v) = []"

fun modifyAt :: "(XMLNode \<Rightarrow> XMLNode) \<Rightarrow> nodeRef \<Rightarrow> XMLNode list \<Rightarrow> XMLNode list" where
  "modifyAt f [] ns = ns"
| "modifyAt f [i] ns = (if i < length ns then ns[i := f (ns ! i)] else ns)"
| "modifyAt f (i # j # js) ns =
     (if i < length ns then
        (case ns ! i of
           XMLElement nm atts cs \<Rightarrow> ns[i := XMLElement nm atts (modifyAt f (j # js) cs)]
         | XMLText v \<Rightarrow> ns)
      else ns)"

fun childCount :: "nodeRef \<Rightarrow> XMLNode list \<Rightarrow> nat" where
  "childCount [] ns = length ns"
| "childCount (i # js) ns =
     (if i < length ns then childCount js (childrenOf (ns ! i)) else 0)"

fun appendChild :: "XMLNode \<Rightarrow> XMLNode \<Rightarrow> XMLNode" where
  "appendChild c (XMLElement nm atts cs) = XMLElement nm atts (cs @ [c])"
| "appendChild c (XMLText v) = XMLText v"

text \<open>
  \<^verbatim>\<open>this.attributes[name] = new XMLAttribute(...)\<close>: a new key is added after the
  others, an existing key keeps its place and takes the new value.
\<close>

fun setKey :: "string \<Rightarrow> string \<Rightarrow> (string \<times> string) list \<Rightarrow> (string \<times> string) list" where
  "setKey k v [] = [(k, v)]"
| "setKey k v ((k', v') # kvs) =
     (if k' = k then (k, v) # kvs else (k', v') # setKey k v kvs)"

fun setAttribute :: "string \<Rightarrow> string \<Rightarrow> XMLNode \<Rightarrow> XMLNode" where
  "setAttribute k v (XMLElement nm atts cs) = XMLElement nm (setKey k v atts) cs"
| "setAttribute k v (XMLText t) = XMLText t"

text \<open>
  \<^verbatim>\<open>xmlbuilder.create(name, {encoding: enc})\<close> with a string \<open>name\<close>: a new document
  with the declaration (version \<open>1.0\<close>) and one root element; the call returns the root.
\<close>

definition create :: "string \<Rightarrow> string \<Rightarrow> error + (XMLDocument \<times> nodeRef)" where
  "create nm enc =
     bindE (eleName nm) (\<lambda>n.
       Inr (\<lparr>version = ''1.0'', encoding = Some enc, children = [XMLElement n [] []]\<rparr>, [0]))"

text \<open>\<^verbatim>\<open>node.ele(name)\<close>: appends a new element to \<open>node\<close> and returns the new element.\<close>

definition ele :: "XMLDocument \<Rightarrow> nodeRef \<Rightarrow> string \<Rightarrow> error + (XMLDocument \<times> nodeRef)" where
  "ele doc node nm =
     bindE (eleName nm) (\<lambda>n.
       Inr (doc\<lparr>children := modifyAt (appendChild (XMLElement n [] [])) node (children doc)\<rparr>,
            node @ [childCount node (children doc)]))"

text \<open>\<^verbatim>\<open>node.att(name, value)\<close>: sets an attribute of \<open>node\<close>.\<close>

definition att :: "XMLDocument \<Rightarrow> nodeRef \<Rightarrow> string \<Rightarrow> string \<Rightarrow> XMLDocument" where
  "att doc node k v =
     doc\<lparr>children := modifyAt (setAttribute (attName k) (attValue v)) node (children doc)\<rparr>"

subsection \<open>Expansion of a JavaScript object\<close>

text \<open>
  \<^verbatim>\<open>XMLNode.element(obj)\<close> for an object: every own key, in insertion order, gives one
  child element; a value that is an empty object gives an element without children
  (\<^verbatim>\<open>isObject(val) and isEmpty(val)\<close>), another object is expanded below the new
  element, and a string becomes the element's text node (a \<open>XMLText\<close> child, also
  for the empty string). The keys of \<^verbatim>\<open>projectObj\<close> are plain names: none starts
  with a decorator (\<^verbatim>\<open>@\<close>, \<^verbatim>\<open>#text\<close>, \<^verbatim>\<open>#cdata\<close>, \<^verbatim>\<open>#comment\<close>,
  \<^verbatim>\<open>#raw\<close>, \<^verbatim>\<open>?\<close>), and no value is an array, a function or null.
\<close>

datatype JSValue = JSString string | JSObject "(string \<times> JSValue) list"

fun elementOfKey :: "string \<Rightarrow> JSValue \<Rightarrow> error + XMLNode"
  and elementsOfObject :: "(string \<times> JSValue) list \<Rightarrow> error + XMLNode list" where
  "elementOfKey k (JSObject []) = bindE (eleName k) (\<lambda>n. Inr (XMLElement n [] []))"
| "elementOfKey k (JSObject (kv # kvs)) =
     bindE (eleName k) (\<lambda>n.
       bindE (elementsOfObject (kv # kvs)) (\<lambda>cs. Inr (XMLElement n [] cs)))"
| "elementOfKey k (JSString s) =
     bindE (eleName k) (\<lambda>n.
       bindE (eleText s) (\<lambda>t. Inr (XMLElement n [] [XMLText t])))"
| "elementsOfObject [] = Inr []"
| "elementsOfObject ((k, v) # kvs) =
     bindE (elementOfKey k v) (\<lambda>n.
       bindE (elementsOfObject kvs) (\<lambda>ns. Inr (n # ns)))"

text \<open>\<^verbatim>\<open>xmlbuilder.create(obj, {encoding: enc})\<close> with an object \<open>obj\<close>.\<close>

definition createFromObject :: "(string \<times> JSValue) list \<Rightarrow> string \<Rightarrow> error + XMLDocument" where
  "createFromObject obj enc =
     bindE (elementsOfObject obj) (\<lambda>ns.
       Inr \<lparr>version = ''1.0'', encoding = Some enc, children = ns\<rparr>)"

subsection \<open>XMLStringWriter, pretty\<close>

definition newline :: string where
  "newline = ''\<newline>''"

text \<open>\<^verbatim>\<open>space(level)\<close>: \<^verbatim>\<open>new Array(level + 1).join('  ')\<close>.\<close>

definition space :: "nat \<Rightarrow> string" where
  "space level = concat (replicate level ''  '')"

definition writeAttribute :: "string \<times> string \<Rightarrow> string" where
  "writeAttribute a = '' '' @ fst a @ ''=\"'' @ snd a @ ''\"''"

definition writeDeclaration :: "XMLDocument \<Rightarrow> string" where
  "writeDeclaration doc =
     ''<?xml version=\"'' @ version doc @ ''\"'' @
     (case encoding doc of None \<Rightarrow> [] | Some enc \<Rightarrow> '' encoding=\"'' @ enc @ ''\"'') @
     ''?>'' @ newline"

text \<open>
  \<^verbatim>\<open>element(node, level)\<close> of the writer: an element without children, or whose children all have
  the value \<open>''\<close>, is written as an empty tag; an element whose only child is a text
  node is written on one line; otherwise every child is written on lines of its own,
  one level deeper. A text node among several children is written on its own line.
\<close>

fun writeElement :: "XMLNode \<Rightarrow> nat \<Rightarrow> string" where
  "writeElement (XMLText v) level = space level @ v @ newline"
| "writeElement (XMLElement nm atts cs) level =
     space level @ ''<'' @ nm @ concat (map writeAttribute atts) @
     (if cs = [] \<or> list_all (\<lambda>e. nodeValue e = Some []) cs then
        ''/>'' @ newline
      else if length cs = 1 \<and> nodeValue (hd cs) \<noteq> None then
        ''>'' @ the (nodeValue (hd cs)) @ ''</'' @ nm @ ''>'' @ newline
      else
        ''>'' @ newline @
        concat (map (\<lambda>c. writeElement c (level + 1)) cs) @
        space level @ ''</'' @ nm @ ''>'' @ newline)"

text \<open>
  \<^verbatim>\<open>document(doc)\<close> of the writer: the declaration and the top-level elements, then
  \<^verbatim>\<open>if (r.slice(-newline.length) === newline) r = r.slice(0, -newline.length)\<close>.
\<close>

definition stripNewline :: "string \<Rightarrow> string" where
  "stripNewline r = (if r \<noteq> [] \<and> [last r] = newline then butlast r else r)"

definition writeDocument :: "XMLDocument \<Rightarrow> string" where
  "writeDocument doc =
     stripNewline (writeDeclaration doc @ concat (map (\<lambda>c. writeElement c 0) (children doc)))"

section \<open>The descriptor builders\<close>

text \<open>\<^verbatim>\<open>projectObj\<close> of \<^verbatim>\<open>createProjectFile\<close>.\<close>

definition projectObj :: "string \<Rightarrow> (string \<times> JSValue) list" where
  "projectObj projectName =
     [(''projectDescription'', JSObject
        [(''name'', JSString projectName),
         (''comment'', JSString []),
         (''projects'', JSObject []),
         (''buildSpec'', JSObject
            [(''buildCommand'', JSObject
               [(''name'', JSString ''org.eclipse.jdt.core.javabuilder''),
                (''arguments'', JSObject [])])]),
         (''natures'', JSObject
            [(''nature'', JSString ''org.eclipse.jdt.core.javanature'')])])]"

definition createProjectFile :: "string \<Rightarrow> error + string" where
  "createProjectFile projectName =
     bindE (createFromObject (projectObj projectName) ''UTF-8'') (\<lambda>xml.
       Inr (writeDocument xml))"

definition createClassPathFile :: "string \<Rightarrow> error + string" where
  "createClassPathFile javaVersion =
     bindE (create ''classpath'' ''UTF-8'') (\<lambda>(doc, xml).
     bindE (ele doc xml ''classpathentry'') (\<lambda>(doc, item).
     let doc = att doc item ''kind'' ''con'';
         doc = att doc item ''path''
                 (''org.eclipse.jdt.launching.JRE_CONTAINER/org.eclipse.jdt.internal.debug.ui.launcher.StandardVMType/''
                  @ javaVersion)
     in
     bindE (ele doc item ''attributes'') (\<lambda>(doc, attributes).
     bindE (ele doc attributes ''attribute'') (\<lambda>(doc, nestedItem).
     let doc = att doc nestedItem ''name'' ''module'';
         doc = att doc nestedItem ''value'' ''true''
     in
     bindE (ele doc xml ''classpathentry'') (\<lambda>(doc, item).
     let doc = att doc item ''kind'' ''src'';
         doc = att doc item ''path'' ''src''
     in
     bindE (ele doc xml ''classpathentry'') (\<lambda>(doc, item).
     let doc = att doc item ''kind'' ''output'';
         doc = att doc item ''path'' ''bin''
     in
     Inr (writeDocument doc)))))))"

section \<open>The filesystem (Node's fs module over POSIX paths)\<close>

text \<open>
  The extension calls \<^verbatim>\<open>fs.existsSync\<close>, \<^verbatim>\<open>fs.mkdirSync\<close> and
  \<^verbatim>\<open>fs.writeFileSync\<close>. The filesystem is a finite map from locations (the names
  from the root directory down) to nodes; it has no symbolic links, no permissions and
  no limit on the length of a name.
  The world also holds the working directory, the calls made to \<^verbatim>\<open>fs\<close> in the
  order they were made, and the messages shown with
  \<^verbatim>\<open>vscode.window.showErrorMessage\<close>.
\<close>

datatype fsnode = File string | Dir

type_synonym location = "string list"

datatype fsCall =
    ExistsSync string
  | MkdirSync string
  | WriteFileSync string string

record world =
  files :: "(location, fsnode) fmap"
  cwd :: location
  calls :: "fsCall list"
  messages :: "string list"

text \<open>A path is split at every \<open>/\<close>: \<open>a//b/\<close> has the components \<open>a\<close>, \<open>''\<close>, \<open>b\<close>, \<open>''\<close>.\<close>

fun splitPath :: "string \<Rightarrow> string list" where
  "splitPath [] = [[]]"
| "splitPath (x # xs) =
     (if x = CHR ''/'' then [] # splitPath xs
      else (case splitPath xs of
              [] \<Rightarrow> [[x]]
            | y # ys \<Rightarrow> (x # y) # ys))"

text \<open>
  Pathname resolution, component by component: the directory reached so far must be a
  directory; an empty component and \<open>.\<close> stay there, \<open>..\<close> goes to the parent (the
  root is its own parent), a name goes to the entry of that name, which need not exist
  when it is the last one.
\<close>

fun walk :: "(location, fsnode) fmap \<Rightarrow> location \<Rightarrow> string list \<Rightarrow> errcode + location" where
  "walk fs cur [] = Inr cur"
| "walk fs cur (c # cs) =
     (case fmlookup fs cur of
        None \<Rightarrow> Inl ENOENT
      | Some (File d) \<Rightarrow> Inl ENOTDIR
      | Some Dir \<Rightarrow>
          if c = [] \<or> c = ''.'' then walk fs cur cs
          else if c = ''..'' then walk fs (butlast cur) cs
          else walk fs (cur @ [c]) cs)"

text \<open>
  A path is refused when it is empty (\<open>ENOENT\<close>) or holds a NUL character (Node
  throws \<open>ERR_INVALID_ARG_VALUE\<close> before any system call); it starts at the root when
  its first character is \<open>/\<close> and at the working directory otherwise.
\<close>

definition resolveFrom :: "world \<Rightarrow> string \<Rightarrow> string list \<Rightarrow> errcode + location" where
  "resolveFrom w p comps =
     (if p = [] then Inl ENOENT
      else if CHR 0x00 \<in> set p then Inl ERR_INVALID_ARG_VALUE
      else walk (files w) (if hd p = CHR ''/'' then [] else cwd w) comps)"

definition resolve :: "world \<Rightarrow> string \<Rightarrow> errcode + location" where
  "resolve w p = resolveFrom w p (splitPath p)"

text \<open>What is at a path (\<^verbatim>\<open>stat\<close>): nothing, a file with its content, or a directory.\<close>

definition lookupPath :: "world \<Rightarrow> string \<Rightarrow> fsnode option" where
  "lookupPath w p =
     (case resolve w p of
        Inl e \<Rightarrow> None
      | Inr loc \<Rightarrow> fmlookup (files w) loc)"

definition isDirectory :: "world \<Rightarrow> string \<Rightarrow> bool" where
  "isDirectory w p = (lookupPath w p = Some Dir)"

text \<open>\<^verbatim>\<open>fs.existsSync(path)\<close>: true when the path resolves to an entry, false on any error.\<close>

definition existsSync :: "string \<Rightarrow> world \<Rightarrow> bool \<times> world" where
  "existsSync p w =
     (lookupPath w p \<noteq> None, w\<lparr>calls := calls w @ [ExistsSync p]\<rparr>)"

text \<open>
  \<^verbatim>\<open>fs.mkdirSync(path)\<close> (not recursive): trailing slashes are ignored; the entry
  must not exist (\<open>EEXIST\<close>) and its parent must be a directory.
\<close>

definition dropTrailingEmpty :: "string list \<Rightarrow> string list" where
  "dropTrailingEmpty comps = rev (dropWhile (\<lambda>c. c = []) (rev comps))"

definition mkdirSync :: "string \<Rightarrow> world \<Rightarrow> (error + unit) \<times> world" where
  "mkdirSync p w =
     (let w = w\<lparr>calls := calls w @ [MkdirSync p]\<rparr> in
      case resolveFrom w p (dropTrailingEmpty (splitPath p)) of
        Inl e \<Rightarrow> (Inl (FsError e p), w)
      | Inr loc \<Rightarrow>
          (case fmlookup (files w) loc of
             Some n \<Rightarrow> (Inl (FsError EEXIST p), w)
           | None \<Rightarrow> (Inr (), w\<lparr>files := fmupd loc Dir (files w)\<rparr>)))"

text \<open>
  \<^verbatim>\<open>fs.writeFileSync(path, data)\<close>: creates the file or replaces its content; the
  path must not be a directory (\<open>EISDIR\<close>) and its parent must be a directory.
\<close>

definition writeFileSync :: "string \<Rightarrow> string \<Rightarrow> world \<Rightarrow> (error + unit) \<times> world" where
  "writeFileSync p content w =
     (let w = w\<lparr>calls := calls w @ [WriteFileSync p content]\<rparr> in
      case resolve w p of
        Inl e \<Rightarrow> (Inl (FsError e p), w)
      | Inr loc \<Rightarrow>
          (case fmlookup (files w) loc of
             Some Dir \<Rightarrow> (Inl (FsError EISDIR p), w)
           | Some (File d) \<Rightarrow> (Inr (), w\<lparr>files := fmupd loc (File content) (files w)\<rparr>)
           | None \<Rightarrow> (Inr (), w\<lparr>files := fmupd loc (File content) (files w)\<rparr>)))"

text \<open>\<^verbatim>\<open>fs.readdirSync(path)\<close> (called by the repository's test): the names in a directory.\<close>

definition readdirSync :: "world \<Rightarrow> string \<Rightarrow> errcode + string fset" where
  "readdirSync w p =
     (case resolve w p of
        Inl e \<Rightarrow> Inl e
      | Inr loc \<Rightarrow>
          (case fmlookup (files w) loc of
             None \<Rightarrow> Inl ENOENT
           | Some (File d) \<Rightarrow> Inl ENOTDIR
           | Some Dir \<Rightarrow>
               Inr (last |`| ffilter (\<lambda>l. l \<noteq> [] \<and> butlast l = loc) (fmdom (files w)))))"

text \<open>
  A well-formed filesystem: the root is a directory and every other entry lies in a
  directory.
\<close>

definition wellFormed :: "(location, fsnode) fmap \<Rightarrow> bool" where
  "wellFormed fs =
     (fmlookup fs [] = Some Dir \<and>
      fBall (fmdom fs) (\<lambda>l. l = [] \<or> fmlookup fs (butlast l) = Some Dir))"

text \<open>\<^verbatim>\<open>await vscode.window.showErrorMessage(message)\<close>.\<close>

definition showErrorMessage :: "string \<Rightarrow> world \<Rightarrow> unit \<times> world" where
  "showErrorMessage message w = ((), w\<lparr>messages := messages w @ [message]\<rparr>)"

text \<open>Sequencing of calls that may throw: a thrown error ends the function.\<close>

definition thenDo ::
  "(world \<Rightarrow> (error + 'a) \<times> world) \<Rightarrow> ('a \<Rightarrow> world \<Rightarrow> (error + 'b) \<times> world) \<Rightarrow>
   world \<Rightarrow> (error + 'b) \<times> world" where
  "thenDo m f w = (case m w of (Inl e, w') \<Rightarrow> (Inl e, w') | (Inr x, w') \<Rightarrow> f x w')"

definition pureCall :: "error + 'a \<Rightarrow> world \<Rightarrow> (error + 'a) \<times> world" where
  "pureCall r w = (r, w)"

section \<open>The folder provisioner\<close>

text \<open>
  \<^verbatim>\<open>createProjectFolder(root, projectName, javaVersion)\<close>. When the path exists the
  function shows the message below and returns; the spec calls this outcome
  \<open>AlreadyExists(projectName)\<close>.
\<close>

definition AlreadyExists :: "string \<Rightarrow> string" where
  "AlreadyExists projectName = ''A folder with the name '' @ projectName @ '' already exists.''"

definition createProjectFolder :: "string \<Rightarrow> string \<Rightarrow> string \<Rightarrow> world \<Rightarrow> (error + unit) \<times> world" where
  "createProjectFolder root projectName javaVersion w =
     (let fullPath = root @ ''/'' @ projectName in
      case existsSync fullPath w of
        (True, w) \<Rightarrow>
          (case showErrorMessage (AlreadyExists projectName) w of
             (u, w) \<Rightarrow> (Inr (), w))
      | (False, w) \<Rightarrow>
          thenDo (mkdirSync fullPath) (\<lambda>u.
          thenDo (pureCall (createProjectFile projectName)) (\<lambda>projectXMLString.
          thenDo (writeFileSync (fullPath @ ''/.project'') projectXMLString) (\<lambda>u.
          thenDo (pureCall (createClassPathFile javaVersion)) (\<lambda>classpathXMLString.
          thenDo (writeFileSync (fullPath @ ''/.classpath'') classpathXMLString) (\<lambda>u.
          thenDo (mkdirSync (fullPath @ ''/src'')) (\<lambda>u.
          mkdirSync (fullPath @ ''/bin''))))))) w)"

section \<open>The workspace folders\<close>

record Uri =
  fsPath :: string

record WorkspaceFolder =
  uri :: Uri
  name :: string
  index :: nat

text \<open>
  \<^verbatim>\<open>path.basename(p)\<close> (POSIX): trailing slashes are dropped, and the result is what
  follows the last remaining slash.
\<close>

definition basename :: "string \<Rightarrow> string" where
  "basename p = rev (takeWhile (\<lambda>c. c \<noteq> CHR ''/'') (dropWhile (\<lambda>c. c = CHR ''/'') (rev p)))"

text \<open>The \<^verbatim>\<open>for\<close> loop of \<^verbatim>\<open>findFolderInWorkspace\<close>, from index \<open>i\<close>.\<close>

function findFolderLoop :: "string \<Rightarrow> WorkspaceFolder list \<Rightarrow> nat \<Rightarrow> string option" where
  "findFolderLoop baseName folders i =
     (if i < length folders then
        (let element = folders ! i in
         if basename (fsPath (uri element)) = baseName then Some (fsPath (uri element))
         else findFolderLoop baseName folders (i + 1))
      else None)"
  by pat_completeness auto
termination
  by (relation "measure (\<lambda>(baseName, folders, i). length folders - i)") auto

definition findFolderInWorkspace :: "string \<Rightarrow> WorkspaceFolder list \<Rightarrow> string option" where
  "findFolderInWorkspace baseName folders = findFolderLoop baseName folders 0"

text \<open>
  \<^verbatim>\<open>getWorkspaceRoot(folders, multi, baseName?)\<close>. \<open>undefined\<close> is \<open>None\<close>;
  \<^verbatim>\<open>if (folderPath)\<close> holds for a string that is not empty; \<^verbatim>\<open>folders[0].uri\<close>
  on an empty array throws a \<open>TypeError\<close>.
\<close>

definition notFoundMessage :: "string \<Rightarrow> string" where
  "notFoundMessage baseName =
     ''Could not find the folder '' @ baseName @ '' in your workspace. '' @ ''Please try again.''"

definition getWorkspaceRoot ::
  "WorkspaceFolder list \<Rightarrow> bool \<Rightarrow> string option \<Rightarrow> world \<Rightarrow> (error + string option) \<times> world" where
  "getWorkspaceRoot folders multi baseName w =
     (if multi then
        (case baseName of
           None \<Rightarrow> (Inr None, w)
         | Some b \<Rightarrow>
             if b = [] then (Inr None, w)
             else
               (let folderPath = findFolderInWorkspace b folders in
                if folderPath \<noteq> None \<and> folderPath \<noteq> Some [] then (Inr folderPath, w)
                else
                  (case showErrorMessage (notFoundMessage b) w of
                     (u, w) \<Rightarrow> (Inr None, w))))
      else
        (case folders of
           [] \<Rightarrow> (Inl TypeError, w)
         | f # fs \<Rightarrow> (Inr (Some (fsPath (uri f))), w)))"

section \<open>Notions used to state the properties\<close>

text \<open>
  The calls of a run that creates the project, in the order of the spec's algorithm
  (check, project directory, \<open>.project\<close>, \<open>.classpath\<close>, \<open>src\<close>, \<open>bin\<close>).
\<close>

definition projectCalls :: "string \<Rightarrow> string \<Rightarrow> string \<Rightarrow> fsCall list" where
  "projectCalls fullPath projectXML classpathXML =
     [ExistsSync fullPath,
      MkdirSync fullPath,
      WriteFileSync (fullPath @ ''/.project'') projectXML,
      WriteFileSync (fullPath @ ''/.classpath'') classpathXML,
      MkdirSync (fullPath @ ''/src''),
      MkdirSync (fullPath @ ''/bin'')]"

text \<open>The project layout at a location: a directory with two files and two directories.\<close>

definition projectEntries ::
  "location \<Rightarrow> string \<Rightarrow> string \<Rightarrow> (location, fsnode) fmap \<Rightarrow> (location, fsnode) fmap" where
  "projectEntries loc projectXML classpathXML fs =
     fmupd (loc @ [''bin'']) Dir
       (fmupd (loc @ [''src'']) Dir
         (fmupd (loc @ [''.classpath'']) (File classpathXML)
           (fmupd (loc @ [''.project'']) (File projectXML)
             (fmupd loc Dir fs))))"

text \<open>A filesystem keeps the directories of another one.\<close>

definition keepsDirs :: "(location, fsnode) fmap \<Rightarrow> (location, fsnode) fmap \<Rightarrow> bool" where
  "keepsDirs fs fs' = (\<forall>l. fmlookup fs l = Some Dir \<longrightarrow> fmlookup fs' l = Some Dir)"

text \<open>
  The project descriptor of the spec (section 4.1), with the project name in its place.
\<close>

definition projectDescriptorText :: "string \<Rightarrow> string" where
  "projectDescriptorText projectName =
     ''<?xml version=\"1.0\" encoding=\"UTF-8\"?>\<newline>'' @
     ''<projectDescription>\<newline>'' @
     ''  <name>'' @ projectName @ ''</name>\<newline>'' @
     ''  <comment/>\<newline>'' @
     ''  <projects/>\<newline>'' @
     ''  <buildSpec>\<newline>'' @
     ''    <buildCommand>\<newline>'' @
     ''      <name>org.eclipse.jdt.core.javabuilder</name>\<newline>'' @
     ''      <arguments/>\<newline>'' @
     ''    </buildCommand>\<newline>'' @
     ''  </buildSpec>\<newline>'' @
     ''  <natures>\<newline>'' @
     ''    <nature>org.eclipse.jdt.core.javanature</nature>\<newline>'' @
     ''  </natures>\<newline>'' @
     ''</projectDescription>''"

text \<open>The same text around any \<open>name\<close> element, and the element the writer prints.\<close>

definition projectDescriptorAround :: "string \<Rightarrow> string" where
  "projectDescriptorAround nameXML =
     ''<?xml version=\"1.0\" encoding=\"UTF-8\"?>\<newline>'' @
     ''<projectDescription>\<newline>'' @
     ''  '' @ nameXML @ ''\<newline>'' @
     ''  <comment/>\<newline>'' @
     ''  <projects/>\<newline>'' @
     ''  <buildSpec>\<newline>'' @
     ''    <buildCommand>\<newline>'' @
     ''      <name>org.eclipse.jdt.core.javabuilder</name>\<newline>'' @
     ''      <arguments/>\<newline>'' @
     ''    </buildCommand>\<newline>'' @
     ''  </buildSpec>\<newline>'' @
     ''  <natures>\<newline>'' @
     ''    <nature>org.eclipse.jdt.core.javanature</nature>\<newline>'' @
     ''  </natures>\<newline>'' @
     ''</projectDescription>''"

definition nameElement :: "string \<Rightarrow> string" where
  "nameElement t = (if t = [] then ''<name/>'' else ''<name>'' @ t @ ''</name>'')"

text \<open>
  The classpath descriptor of the spec (section 4.1), with the Java version in its place.
\<close>

definition classpathDescriptorText :: "string \<Rightarrow> string" where
  "classpathDescriptorText javaVersion =
     ''<?xml version=\"1.0\" encoding=\"UTF-8\"?>\<newline>'' @
     ''<classpath>\<newline>'' @
     ''  <classpathentry kind=\"con\" path=\"org.eclipse.jdt.launching.JRE_CONTAINER/org.eclipse.jdt.internal.debug.ui.launcher.StandardVMType/'' @ javaVersion @ ''\">\<newline>'' @
     ''    <attributes>\<newline>'' @
     ''      <attribute name=\"module\" value=\"true\"/>\<newline>'' @
     ''    </attributes>\<newline>'' @
     ''  </classpathentry>\<newline>'' @
     ''  <classpathentry kind=\"src\" path=\"src\"/>\<newline>'' @
     ''  <classpathentry kind=\"output\" path=\"bin\"/>\<newline>'' @
     ''</classpath>''"

text \<open>The trees the two builders make, for a text \<open>t\<close> and an attribute value \<open>p\<close>.\<close>

definition projectTree :: "string \<Rightarrow> XMLNode" where
  "projectTree t =
     XMLElement ''projectDescription'' []
       [XMLElement ''name'' [] [XMLText t],
        XMLElement ''comment'' [] [XMLText []],
        XMLElement ''projects'' [] [],
        XMLElement ''buildSpec'' []
          [XMLElement ''buildCommand'' []
             [XMLElement ''name'' [] [XMLText ''org.eclipse.jdt.core.javabuilder''],
              XMLElement ''arguments'' [] []]],
        XMLElement ''natures'' []
          [XMLElement ''nature'' [] [XMLText ''org.eclipse.jdt.core.javanature'']]]"

definition containerPath :: string where
  "containerPath =
     ''org.eclipse.jdt.launching.JRE_CONTAINER/org.eclipse.jdt.internal.debug.ui.launcher.StandardVMType/''"

definition classpathTree :: "string \<Rightarrow> XMLNode" where
  "classpathTree p =
     XMLElement ''classpath'' []
       [XMLElement ''classpathentry'' [(''kind'', ''con''), (''path'', p)]
          [XMLElement ''attributes'' []
             [XMLElement ''attribute'' [(''name'', ''module''), (''value'', ''true'')] []]],
        XMLElement ''classpathentry'' [(''kind'', ''src''), (''path'', ''src'')] [],
        XMLElement ''classpathentry'' [(''kind'', ''output''), (''path'', ''bin'')] []]"

definition documentOf :: "XMLNode \<Rightarrow> XMLDocument" where
  "documentOf root = \<lparr>version = ''1.0'', encoding = Some ''UTF-8'', children = [root]\<rparr>"

text \<open>A world for examples: the root directory and the directory \<open>/tmp\<close>.\<close>

definition exampleWorld :: world where
  "exampleWorld =
     \<lparr>files = fmupd [''tmp''] Dir (fmupd [] Dir fmempty), cwd = [], calls = [], messages = []\<rparr>"

text \<open>In a list of calls, \<open>a\<close> stands before the first \<open>b\<close>.\<close>

definition calledBefore :: "fsCall \<Rightarrow> fsCall \<Rightarrow> fsCall list \<Rightarrow> bool" where
  "calledBefore a b cs = (a \<in> set (takeWhile (\<lambda>x. x \<noteq> b) cs))"

text \<open>A plain file name: not empty, not \<open>.\<close> or \<open>..\<close>, without \<open>/\<close> and NUL.\<close>

definition plainName :: "string \<Rightarrow> bool" where
  "plainName x =
     (x \<noteq> [] \<and> x \<noteq> ''.'' \<and> x \<noteq> ''..'' \<and> CHR ''/'' \<notin> set x \<and> CHR 0x00 \<notin> set x)"

section \<open>The builders' calls in memory\<close>

text \<open>
  The documents of the library are objects: \<^verbatim>\<open>xmlbuilder.create\<close> allocates one, and
  \<^verbatim>\<open>ele\<close> and \<^verbatim>\<open>att\<close> change it in place. To state what a call of a builder reads
  and what it changes, the calls of the library are given here on a memory, which
  holds the world of the filesystem and the documents allocated so far, in the order
  of their allocation. A node object is the position of its document in the memory
  together with the node's path in the document. A document whose creation throws is
  referred to by nothing and is not kept.
\<close>

record memory =
  outside :: world
  documents :: "XMLDocument list"

type_synonym nodeObject = "nat \<times> nodeRef"

definition documentAt :: "memory \<Rightarrow> nat \<Rightarrow> XMLDocument option" where
  "documentAt m a = (if a < length (documents m) then Some (documents m ! a) else None)"

definition storeDocument :: "nat \<Rightarrow> XMLDocument \<Rightarrow> memory \<Rightarrow> memory" where
  "storeDocument a doc m = m\<lparr>documents := (documents m)[a := doc]\<rparr>"

definition thenIn ::
  "(memory \<Rightarrow> (error + 'a) \<times> memory) \<Rightarrow> ('a \<Rightarrow> memory \<Rightarrow> (error + 'b) \<times> memory) \<Rightarrow>
   memory \<Rightarrow> (error + 'b) \<times> memory" where
  "thenIn c f m = (case c m of (Inl e, m') \<Rightarrow> (Inl e, m') | (Inr x, m') \<Rightarrow> f x m')"

text \<open>\<^verbatim>\<open>xmlbuilder.create(name, {encoding: enc})\<close>: the new document is put after the others.\<close>

definition createIn :: "string \<Rightarrow> string \<Rightarrow> memory \<Rightarrow> (error + nodeObject) \<times> memory" where
  "createIn nm enc m =
     (case create nm enc of
        Inl e \<Rightarrow> (Inl e, m)
      | Inr (doc, root) \<Rightarrow>
          (Inr (length (documents m), root), m\<lparr>documents := documents m @ [doc]\<rparr>))"

text \<open>
  \<^verbatim>\<open>xmlbuilder.create(obj, {encoding: enc})\<close>: the call returns the last of the
  top-level elements it has made.
\<close>

definition createFromObjectIn ::
  "(string \<times> JSValue) list \<Rightarrow> string \<Rightarrow> memory \<Rightarrow> (error + nodeObject) \<times> memory" where
  "createFromObjectIn obj enc m =
     (case createFromObject obj enc of
        Inl e \<Rightarrow> (Inl e, m)
      | Inr doc \<Rightarrow>
          (Inr (length (documents m), [length (children doc) - 1]),
           m\<lparr>documents := documents m @ [doc]\<rparr>))"

text \<open>
  \<^verbatim>\<open>node.ele(name)\<close>, \<^verbatim>\<open>node.att(name, value)\<close> (which returns \<open>node\<close>) and
  \<^verbatim>\<open>node.end({pretty: true})\<close>, which writes the document of \<open>node\<close>. A call on a
  reference to nothing throws a \<open>TypeError\<close>.
\<close>

definition eleIn :: "nodeObject \<Rightarrow> string \<Rightarrow> memory \<Rightarrow> (error + nodeObject) \<times> memory" where
  "eleIn node nm m =
     (case documentAt m (fst node) of
        None \<Rightarrow> (Inl TypeError, m)
      | Some doc \<Rightarrow>
          (case ele doc (snd node) nm of
             Inl e \<Rightarrow> (Inl e, m)
           | Inr (doc', child) \<Rightarrow> (Inr (fst node, child), storeDocument (fst node) doc' m)))"

definition attIn ::
  "nodeObject \<Rightarrow> string \<Rightarrow> string \<Rightarrow> memory \<Rightarrow> (error + nodeObject) \<times> memory" where
  "attIn node k v m =
     (case documentAt m (fst node) of
        None \<Rightarrow> (Inl TypeError, m)
      | Some doc \<Rightarrow> (Inr node, storeDocument (fst node) (att doc (snd node) k v) m))"

definition endIn :: "nodeObject \<Rightarrow> memory \<Rightarrow> (error + string) \<times> memory" where
  "endIn node m =
     (case documentAt m (fst node) of
        None \<Rightarrow> (Inl TypeError, m)
      | Some doc \<Rightarrow> (Inr (writeDocument doc), m))"

text \<open>The two builders, call by call.\<close>

definition createProjectFileIn :: "string \<Rightarrow> memory \<Rightarrow> (error + string) \<times> memory" where
  "createProjectFileIn projectName =
     thenIn (createFromObjectIn (projectObj projectName) ''UTF-8'') (\<lambda>xml.
     endIn xml)"

definition createClassPathFileIn :: "string \<Rightarrow> memory \<Rightarrow> (error + string) \<times> memory" where
  "createClassPathFileIn javaVersion =
     thenIn (createIn ''classpath'' ''UTF-8'') (\<lambda>xml.
     thenIn (eleIn xml ''classpathentry'') (\<lambda>item.
     thenIn (attIn item ''kind'' ''con'') (\<lambda>u.
     thenIn (attIn item ''path''
               (''org.eclipse.jdt.launching.JRE_CONTAINER/org.eclipse.jdt.internal.debug.ui.launcher.StandardVMType/''
                @ javaVersion)) (\<lambda>u.
     thenIn (eleIn item ''attributes'') (\<lambda>attributes.
     thenIn (eleIn attributes ''attribute'') (\<lambda>nestedItem.
     thenIn (attIn nestedItem ''name'' ''module'') (\<lambda>u.
     thenIn (attIn nestedItem ''value'' ''true'') (\<lambda>u.
     thenIn (eleIn xml ''classpathentry'') (\<lambda>item.
     thenIn (attIn item ''kind'' ''src'') (\<lambda>u.
     thenIn (attIn item ''path'' ''src'') (\<lambda>u.
     thenIn (eleIn xml ''classpathentry'') (\<lambda>item.
     thenIn (attIn item ''kind'' ''output'') (\<lambda>u.
     thenIn (attIn item ''path'' ''bin'') (\<lambda>u.
     endIn xml))))))))))))))"

text \<open>A memory for examples: the example world and one document of another caller.\<close>

definition exampleMemory :: memory where
  "exampleMemory =
     \<lparr>outside = exampleWorld,
      documents = [\<lparr>version = ''1.0'', encoding = None, children = [XMLElement ''a'' [] []]\<rparr>]\<rparr>"

section \<open>Reading XML back\<close>

text \<open>
  Modelled from the spec: the parser of the round-trip property (spec, section 8:
  the text of either builder, parsed again, gives the descriptor back). The repository
  has no parser. The reader below follows XML 1.0 for the part of the language the
  writer produces: the declaration, start, end and empty tags with attributes in double
  quotes, and character data. It normalises line ends (\<open>CR LF\<close> and \<open>CR\<close> to
  \<open>LF\<close>), replaces the predefined entities and character references, turns literal
  white space in an attribute value into a space, keeps all character data (also white
  space between elements), and rejects a character that is not a legal XML character
  (of the code units \<open>0..255\<close>: anything below \<open>0x20\<close> but tab, \<open>LF\<close> and \<open>CR\<close>),
  a \<open><\<close> in an attribute value, a reference that is unknown or not closed, tags
  that do not match, and text outside the root element. A processing instruction is
  skipped like the declaration. Comments, CDATA sections, document types and attributes
  in single quotes are outside this part: the reader rejects them.
\<close>

datatype ParsedNode =
    ParsedElement string "(string \<times> string) list" "ParsedNode list"
  | ParsedText string

text \<open>The production \<open>Char\<close> of XML 1.0, and its white space and name characters.\<close>

definition legalChar :: "char \<Rightarrow> bool" where
  "legalChar c = (c = CHR 0x09 \<or> c = CHR 0x0A \<or> c = CHR 0x0D \<or> (32::nat) \<le> of_char c)"

definition isSpace :: "char \<Rightarrow> bool" where
  "isSpace c = (c = CHR '' '' \<or> c = CHR 0x09 \<or> c = CHR 0x0A \<or> c = CHR 0x0D)"

definition isNameChar :: "char \<Rightarrow> bool" where
  "isNameChar c =
     (let n = (of_char c :: nat)
      in (97 \<le> n \<and> n \<le> 122) \<or> (65 \<le> n \<and> n \<le> 90) \<or> (48 \<le> n \<and> n \<le> 57)
         \<or> c = CHR ''_'' \<or> c = CHR ''-'' \<or> c = CHR ''.'' \<or> c = CHR '':'')"

text \<open>End-of-line handling (XML 1.0, section 2.11).\<close>

fun normalizeEOL :: "string \<Rightarrow> string" where
  "normalizeEOL [] = []"
| "normalizeEOL [c] = [if c = CHR 0x0D then CHR 0x0A else c]"
| "normalizeEOL (c # d # cs) =
     (if c = CHR 0x0D then
        (if d = CHR 0x0A then CHR 0x0A # normalizeEOL cs
         else CHR 0x0A # normalizeEOL (d # cs))
      else c # normalizeEOL (d # cs))"

text \<open>References: \<open>&lt;\<close>, \<open>&gt;\<close>, \<open>&amp;\<close>, \<open>&quot;\<close>, \<open>&apos;\<close>, \<open>&#N;\<close> and \<open>&#xN;\<close>.\<close>

definition digitValue :: "char \<Rightarrow> nat option" where
  "digitValue c =
     (let n = (of_char c :: nat)
      in if 48 \<le> n \<and> n \<le> 57 then Some (n - 48)
         else if 65 \<le> n \<and> n \<le> 70 then Some (n - 55)
         else if 97 \<le> n \<and> n \<le> 102 then Some (n - 87)
         else None)"

fun numberValue :: "nat \<Rightarrow> nat \<Rightarrow> string \<Rightarrow> nat option" where
  "numberValue base acc [] = Some acc"
| "numberValue base acc (c # cs) =
     (case digitValue c of
        None \<Rightarrow> None
      | Some d \<Rightarrow> if d < base then numberValue base (acc * base + d) cs else None)"

definition charOfCode :: "nat option \<Rightarrow> char option" where
  "charOfCode v =
     (case v of
        None \<Rightarrow> None
      | Some n \<Rightarrow> if n < 256 \<and> legalChar (char_of n) then Some (char_of n) else None)"

definition referenceChar :: "string \<Rightarrow> char option" where
  "referenceChar r =
     (if r = ''lt'' then Some CHR ''<''
      else if r = ''gt'' then Some CHR ''>''
      else if r = ''amp'' then Some CHR ''&''
      else if r = ''quot'' then Some (CHR 0x22)
      else if r = ''apos'' then Some (CHR 0x27)
      else (case r of
              c # d # ds \<Rightarrow>
                if c = CHR ''#'' \<and> d = CHR ''x'' \<and> ds \<noteq> [] then charOfCode (numberValue 16 0 ds)
                else if c = CHR ''#'' then charOfCode (numberValue 10 0 (d # ds))
                else None
            | _ \<Rightarrow> None))"

text \<open>
  Character data or an attribute value (\<open>inAtt\<close>) with its references replaced; the
  second argument is the name of the reference being read, if any.
\<close>

fun decode :: "bool \<Rightarrow> string option \<Rightarrow> string \<Rightarrow> string option" where
  "decode inAtt None [] = Some []"
| "decode inAtt (Some r) [] = None"
| "decode inAtt None (c # cs) =
     (if c = CHR ''&'' then decode inAtt (Some []) cs
      else if \<not> legalChar c \<or> c = CHR ''<'' then None
      else if inAtt \<and> isSpace c then map_option ((#) CHR '' '') (decode inAtt None cs)
      else map_option ((#) c) (decode inAtt None cs))"
| "decode inAtt (Some r) (c # cs) =
     (if c = CHR '';'' then
        (case referenceChar r of
           None \<Rightarrow> None
         | Some d \<Rightarrow> map_option ((#) d) (decode inAtt None cs))
      else decode inAtt (Some (r @ [c])) cs)"

text \<open>
  The text is cut into character data and tags (what stands between \<open><\<close> and
  \<open>>\<close>); a \<open>>\<close> inside a quoted attribute value does not end the tag.
\<close>

datatype piece = TextPiece string | TagPiece string

datatype lexState = InText string | InTag string | InQuote string

fun pieces :: "lexState \<Rightarrow> string \<Rightarrow> piece list option" where
  "pieces (InText acc) [] = Some [TextPiece acc]"
| "pieces (InTag acc) [] = None"
| "pieces (InQuote acc) [] = None"
| "pieces (InText acc) (c # cs) =
     (if c = CHR ''<'' then map_option ((#) (TextPiece acc)) (pieces (InTag []) cs)
      else pieces (InText (acc @ [c])) cs)"
| "pieces (InTag acc) (c # cs) =
     (if c = CHR ''>'' then map_option ((#) (TagPiece acc)) (pieces (InText []) cs)
      else if c = CHR ''<'' then None
      else if c = CHR 0x22 then pieces (InQuote (acc @ [c])) cs
      else pieces (InTag (acc @ [c])) cs)"
| "pieces (InQuote acc) (c # cs) =
     (if c = CHR 0x22 then pieces (InTag (acc @ [c])) cs
      else if c = CHR ''<'' then None
      else pieces (InQuote (acc @ [c])) cs)"

text \<open>The attributes of a tag, and whether the tag ends with \<open>/\<close>.\<close>

datatype attState = BeforeName | InName string | InValue string string

fun attrs :: "attState \<Rightarrow> string \<Rightarrow> ((string \<times> string) list \<times> bool) option" where
  "attrs BeforeName [] = Some ([], False)"
| "attrs (InName n) [] = None"
| "attrs (InValue n acc) [] = None"
| "attrs BeforeName (c # cs) =
     (if c = CHR ''/'' \<and> cs = [] then Some ([], True)
      else if isSpace c then attrs BeforeName cs
      else if isNameChar c then attrs (InName [c]) cs
      else None)"
| "attrs (InName n) (c # cs) =
     (if isNameChar c then attrs (InName (n @ [c])) cs
      else if c = CHR ''='' then
        (case cs of
           [] \<Rightarrow> None
         | q # cs' \<Rightarrow> if q = CHR 0x22 then attrs (InValue n []) cs' else None)
      else None)"
| "attrs (InValue n acc) (c # cs) =
     (if c = CHR 0x22 then
        (case decode True None acc of
           None \<Rightarrow> None
         | Some v \<Rightarrow> map_option (\<lambda>(as, e). ((n, v) # as, e)) (attrs BeforeName cs))
      else attrs (InValue n (acc @ [c])) cs)"

datatype tag = Declaration | StartTag string "(string \<times> string) list" | EmptyTag string "(string \<times> string) list" | EndTag string

definition parseTag :: "string \<Rightarrow> tag option" where
  "parseTag raw =
     (case raw of
        [] \<Rightarrow> None
      | c # cs \<Rightarrow>
          if c = CHR ''?'' then (if cs \<noteq> [] \<and> last cs = CHR ''?'' then Some Declaration else None)
          else if c = CHR ''/'' then
            (let n = takeWhile isNameChar cs
             in if n \<noteq> [] \<and> list_all isSpace (dropWhile isNameChar cs) then Some (EndTag n) else None)
          else
            (let n = takeWhile isNameChar raw
             in if n = [] then None
                else (case attrs BeforeName (dropWhile isNameChar raw) of
                        None \<Rightarrow> None
                      | Some (as, e) \<Rightarrow> Some (if e then EmptyTag n as else StartTag n as))))"

text \<open>
  The tree is built with a stack of open elements (name, attributes, children so far).
\<close>

type_synonym frame = "string \<times> (string \<times> string) list \<times> ParsedNode list"

fun addNode :: "ParsedNode \<Rightarrow> frame list \<Rightarrow> ParsedNode list \<Rightarrow> frame list \<times> ParsedNode list" where
  "addNode n [] roots = ([], roots @ [n])"
| "addNode n ((nm, as, cs) # st) roots = ((nm, as, cs @ [n]) # st, roots)"

fun build :: "frame list \<Rightarrow> ParsedNode list \<Rightarrow> piece list \<Rightarrow> ParsedNode list option" where
  "build [] roots [] = Some roots"
| "build (f # st) roots [] = None"
| "build st roots (TextPiece raw # ps) =
     (if raw = [] then build st roots ps
      else (case decode False None raw of
              None \<Rightarrow> None
            | Some t \<Rightarrow>
                (case st of
                   [] \<Rightarrow> if list_all isSpace t then build [] roots ps else None
                 | f # st' \<Rightarrow>
                     (case addNode (ParsedText t) st roots of
                        (st2, roots2) \<Rightarrow> build st2 roots2 ps))))"
| "build st roots (TagPiece raw # ps) =
     (case parseTag raw of
        None \<Rightarrow> None
      | Some Declaration \<Rightarrow> build st roots ps
      | Some (StartTag n as) \<Rightarrow> build ((n, as, []) # st) roots ps
      | Some (EmptyTag n as) \<Rightarrow>
          (case addNode (ParsedElement n as []) st roots of
             (st2, roots2) \<Rightarrow> build st2 roots2 ps)
      | Some (EndTag n) \<Rightarrow>
          (case st of
             [] \<Rightarrow> None
           | (n', as, cs) # st' \<Rightarrow>
               if n' = n then
                 (case addNode (ParsedElement n as cs) st' roots of
                    (st2, roots2) \<Rightarrow> build st2 roots2 ps)
               else None))"

definition parseDocument :: "string \<Rightarrow> ParsedNode option" where
  "parseDocument s =
     (case pieces (InText []) (normalizeEOL s) of
        None \<Rightarrow> None
      | Some ps \<Rightarrow>
          (case build [] [] ps of
             Some [root] \<Rightarrow> Some root
           | _ \<Rightarrow> None))"

text \<open>What the round-trip property reads from the parsed document.\<close>

fun isElement :: "ParsedNode \<Rightarrow> bool" where
  "isElement (ParsedElement n as cs) = True"
| "isElement (ParsedText t) = False"

fun elementName :: "ParsedNode \<Rightarrow> string" where
  "elementName (ParsedElement n as cs) = n"
| "elementName (ParsedText t) = []"

fun childElements :: "ParsedNode \<Rightarrow> ParsedNode list" where
  "childElements (ParsedElement n as cs) = filter isElement cs"
| "childElements (ParsedText t) = []"

fun textOf :: "ParsedNode \<Rightarrow> string" where
  "textOf (ParsedText t) = t"
| "textOf (ParsedElement n as cs) = []"

fun textContent :: "ParsedNode \<Rightarrow> string" where
  "textContent (ParsedElement n as cs) = concat (map textOf cs)"
| "textContent (ParsedText t) = t"

fun attributeOf :: "string \<Rightarrow> ParsedNode \<Rightarrow> string option" where
  "attributeOf k (ParsedElement n as cs) = map_of as k"
| "attributeOf k (ParsedText t) = None"

definition nameText :: "ParsedNode \<Rightarrow> string option" where
  "nameText doc =
     map_option textContent (find (\<lambda>e. elementName e = ''name'') (childElements doc))"

definition firstEntryPath :: "ParsedNode \<Rightarrow> string option" where
  "firstEntryPath doc =
     (case childElements doc of
        [] \<Rightarrow> None
      | e # es \<Rightarrow> attributeOf ''path'' e)"

text \<open>
  The round trip of the name through \<^verbatim>\<open>createProjectFile\<close>, and of the version through
  \<^verbatim>\<open>createClassPathFile\<close> (the \<open>path\<close> of the first entry is the container path
  followed by the version).
\<close>

definition roundTripName :: "string \<Rightarrow> bool" where
  "roundTripName projectName =
     (case createProjectFile projectName of
        Inl e \<Rightarrow> False
      | Inr xml \<Rightarrow>
          (case parseDocument xml of
             None \<Rightarrow> False
           | Some doc \<Rightarrow> nameText doc = Some projectName))"

definition roundTripPath :: "string \<Rightarrow> bool" where
  "roundTripPath javaVersion =
     (case createClassPathFile javaVersion of
        Inl e \<Rightarrow> False
      | Inr xml \<Rightarrow>
          (case parseDocument xml of
             None \<Rightarrow> False
           | Some doc \<Rightarrow> firstEntryPath doc = Some (containerPath @ javaVersion)))"

text \<open>The pieces and the parsed trees of the two descriptors.\<close>

definition parsedProject :: "ParsedNode list \<Rightarrow> ParsedNode" where
  "parsedProject nameChildren =
     ParsedElement ''projectDescription'' []
       [ParsedText ''\<newline>  '',
        ParsedElement ''name'' [] nameChildren,
        ParsedText ''\<newline>  '',
        ParsedElement ''comment'' [] [],
        ParsedText ''\<newline>  '',
        ParsedElement ''projects'' [] [],
        ParsedText ''\<newline>  '',
        ParsedElement ''buildSpec'' []
          [ParsedText ''\<newline>    '',
           ParsedElement ''buildCommand'' []
             [ParsedText ''\<newline>      '',
              ParsedElement ''name'' [] [ParsedText ''org.eclipse.jdt.core.javabuilder''],
              ParsedText ''\<newline>      '',
              ParsedElement ''arguments'' [] [],
              ParsedText ''\<newline>    ''],
           ParsedText ''\<newline>  ''],
        ParsedText ''\<newline>  '',
        ParsedElement ''natures'' []
          [ParsedText ''\<newline>    '',
           ParsedElement ''nature'' [] [ParsedText ''org.eclipse.jdt.core.javanature''],
           ParsedText ''\<newline>  ''],
        ParsedText ''\<newline>'']"

definition projectPieces :: "piece list \<Rightarrow> piece list" where
  "projectPieces namePieces =
     [TextPiece [], TagPiece ''?xml version=\"1.0\" encoding=\"UTF-8\"?'',
      TextPiece ''\<newline>'', TagPiece ''projectDescription'',
      TextPiece ''\<newline>  ''] @ namePieces @
     [TextPiece ''\<newline>  '', TagPiece ''comment/'',
      TextPiece ''\<newline>  '', TagPiece ''projects/'',
      TextPiece ''\<newline>  '', TagPiece ''buildSpec'',
      TextPiece ''\<newline>    '', TagPiece ''buildCommand'',
      TextPiece ''\<newline>      '', TagPiece ''name'',
      TextPiece ''org.eclipse.jdt.core.javabuilder'', TagPiece ''/name'',
      TextPiece ''\<newline>      '', TagPiece ''arguments/'',
      TextPiece ''\<newline>    '', TagPiece ''/buildCommand'',
      TextPiece ''\<newline>  '', TagPiece ''/buildSpec'',
      TextPiece ''\<newline>  '', TagPiece ''natures'',
      TextPiece ''\<newline>    '', TagPiece ''nature'',
      TextPiece ''org.eclipse.jdt.core.javanature'', TagPiece ''/nature'',
      TextPiece ''\<newline>  '', TagPiece ''/natures'',
      TextPiece ''\<newline>'', TagPiece ''/projectDescription'',
      TextPiece []]"

definition parsedClasspath :: "string \<Rightarrow> ParsedNode" where
  "parsedClasspath p =
     ParsedElement ''classpath'' []
       [ParsedText ''\<newline>  '',
        ParsedElement ''classpathentry'' [(''kind'', ''con''), (''path'', p)]
          [ParsedText ''\<newline>    '',
           ParsedElement ''attributes'' []
             [ParsedText ''\<newline>      '',
              ParsedElement ''attribute'' [(''name'', ''module''), (''value'', ''true'')] [],
              ParsedText ''\<newline>    ''],
           ParsedText ''\<newline>  ''],
        ParsedText ''\<newline>  '',
        ParsedElement ''classpathentry'' [(''kind'', ''src''), (''path'', ''src'')] [],
        ParsedText ''\<newline>  '',
        ParsedElement ''classpathentry'' [(''kind'', ''output''), (''path'', ''bin'')] [],
        ParsedText ''\<newline>'']"

definition classpathPieces :: "string \<Rightarrow> piece list" where
  "classpathPieces x =
     [TextPiece [], TagPiece ''?xml version=\"1.0\" encoding=\"UTF-8\"?'',
      TextPiece ''\<newline>'', TagPiece ''classpath'',
      TextPiece ''\<newline>  '',
      TagPiece (''classpathentry kind=\"con\" path=\"'' @ containerPath @ x @ ''\"''),
      TextPiece ''\<newline>    '', TagPiece ''attributes'',
      TextPiece ''\<newline>      '', TagPiece ''attribute name=\"module\" value=\"true\"/'',
      TextPiece ''\<newline>    '', TagPiece ''/attributes'',
      TextPiece ''\<newline>  '', TagPiece ''/classpathentry'',
      TextPiece ''\<newline>  '', TagPiece ''classpathentry kind=\"src\" path=\"src\"/'',
      TextPiece ''\<newline>  '', TagPiece ''classpathentry kind=\"output\" path=\"bin\"/'',
      TextPiece ''\<newline>'', TagPiece ''/classpath'',
      TextPiece []]"

section \<open>The builders' output\<close>

lemma bindE_Inr [simp]: "bindE (Inr x) f = f x"
  by (simp add: bindE_def)

lemma bindE_Inl [simp]: "bindE (Inl e) f = Inl e"
  by (simp add: bindE_def)

lemma eleName_literal:
  "illegalCharIndex s = None \<Longrightarrow> eleName s = Inr s"
  by (simp add: assertLegalChar_def eleName_def)

lemma create_classpath:
  "create ''classpath'' enc =
     Inr (\<lparr>version = ''1.0'', encoding = Some enc, children = [XMLElement ''classpath'' [] []]\<rparr>, [0])"
  by (simp add: create_def eleName_literal)

lemma ele_literal:
  "illegalCharIndex nm = None \<Longrightarrow>
   ele doc node nm =
     Inr (doc\<lparr>children := modifyAt (appendChild (XMLElement nm [] [])) node (children doc)\<rparr>,
          node @ [childCount node (children doc)])"
  by (simp add: ele_def eleName_literal)

lemma replaceAll_Nil [simp]: "replaceAll c rep [] = []"
  by (simp add: replaceAll_def)

lemma replaceAll_Cons [simp]:
  "replaceAll c rep (x # xs) = (if x = c then rep else [x]) @ replaceAll c rep xs"
  by (simp add: replaceAll_def)

lemma replaceAll_append [simp]:
  "replaceAll c rep (xs @ ys) = replaceAll c rep xs @ replaceAll c rep ys"
  by (simp add: replaceAll_def)

lemma attEscape_append: "attEscape (xs @ ys) = attEscape xs @ attEscape ys"
  by (simp add: attEscape_def)

lemma attEscape_containerPath: "attEscape containerPath = containerPath"
  by (simp add: attEscape_def containerPath_def)

lemma att_eq:
  "att doc node k v =
     doc\<lparr>children := modifyAt (setAttribute k (attEscape v)) node (children doc)\<rparr>"
  by (simp add: att_def attName_def attValue_def)

lemma attEscape_literals:
  "attEscape ''con'' = ''con''" "attEscape ''src'' = ''src''" "attEscape ''bin'' = ''bin''"
  "attEscape ''output'' = ''output''" "attEscape ''module'' = ''module''"
  "attEscape ''true'' = ''true''"
  by (simp_all add: attEscape_def)

lemma createClassPathFile_tree:
  "createClassPathFile javaVersion =
     Inr (writeDocument (documentOf (classpathTree (containerPath @ attEscape javaVersion))))"
proof -
  have p: "attEscape (''org.eclipse.jdt.launching.JRE_CONTAINER/org.eclipse.jdt.internal.debug.ui.launcher.StandardVMType/'' @ javaVersion)
     = containerPath @ attEscape javaVersion"
    using attEscape_containerPath by (simp only: attEscape_append containerPath_def)
  show ?thesis
    unfolding createClassPathFile_def att_eq p attEscape_literals
    by (simp add: create_classpath ele_literal Let_def classpathTree_def documentOf_def)
qed

lemma stripNewline_snoc: "stripNewline (xs @ newline) = xs"
  by (simp add: stripNewline_def newline_def)

lemma space_simps: "space 0 = []" "space (Suc n) = ''  '' @ space n"
  by (simp_all add: space_def)

lemma writeDocument_classpathTree:
  "writeDocument (documentOf (classpathTree (containerPath @ v))) = classpathDescriptorText v"
proof -
  have "writeDeclaration (documentOf (classpathTree (containerPath @ v)))
          @ writeElement (classpathTree (containerPath @ v)) 0
        = classpathDescriptorText v @ newline"
    by (simp add: writeDeclaration_def classpathTree_def writeAttribute_def space_simps
        classpathDescriptorText_def containerPath_def newline_def documentOf_def)
  then show ?thesis
    by (simp add: writeDocument_def stripNewline_snoc documentOf_def del: writeElement.simps)
qed

lemma createClassPathFile_text:
  "createClassPathFile javaVersion = Inr (classpathDescriptorText (attEscape javaVersion))"
  by (simp only: createClassPathFile_tree writeDocument_classpathTree)

lemma eleText_literals:
  "eleText [] = Inr []"
  "eleText ''org.eclipse.jdt.core.javabuilder'' = Inr ''org.eclipse.jdt.core.javabuilder''"
  "eleText ''org.eclipse.jdt.core.javanature'' = Inr ''org.eclipse.jdt.core.javanature''"
  by (simp_all add: eleText_def elEscape_def assertLegalChar_def)

lemma createProjectFile_tree:
  "createProjectFile projectName =
     bindE (eleText projectName) (\<lambda>t. Inr (writeDocument (documentOf (projectTree t))))"
  by (cases "eleText projectName")
     (simp_all add: createProjectFile_def createFromObject_def projectObj_def eleName_literal
        eleText_literals projectTree_def documentOf_def)

lemma writeDocument_projectTree:
  "writeDocument (documentOf (projectTree t)) = projectDescriptorAround (nameElement t)"
proof -
  have "writeDeclaration (documentOf (projectTree t)) @ writeElement (projectTree t) 0
        = projectDescriptorAround (nameElement t) @ newline"
    by (simp add: writeDeclaration_def projectTree_def writeAttribute_def space_simps
        projectDescriptorAround_def nameElement_def newline_def documentOf_def)
  then show ?thesis
    by (simp add: writeDocument_def stripNewline_snoc documentOf_def del: writeElement.simps)
qed

lemma createProjectFile_text:
  "createProjectFile projectName =
     bindE (eleText projectName) (\<lambda>t. Inr (projectDescriptorAround (nameElement t)))"
  by (simp only: createProjectFile_tree writeDocument_projectTree)

lemma projectDescriptorAround_name:
  "t \<noteq> [] \<Longrightarrow> projectDescriptorAround (nameElement t) = projectDescriptorText t"
  by (simp add: projectDescriptorAround_def nameElement_def projectDescriptorText_def)

subsection \<open>The names the writer rejects\<close>

lemma illegalCharIndex_None:
  "illegalCharIndex s = None \<longleftrightarrow> CHR 0x00 \<notin> set s"
  by (induction s) auto

lemma NUL_replaceAll:
  "c \<noteq> CHR 0x00 \<Longrightarrow> CHR 0x00 \<notin> set rep \<Longrightarrow>
   CHR 0x00 \<in> set (replaceAll c rep s) \<longleftrightarrow> CHR 0x00 \<in> set s"
  by (induction s) auto

lemma NUL_elEscape: "CHR 0x00 \<in> set (elEscape s) \<longleftrightarrow> CHR 0x00 \<in> set s"
  by (simp add: elEscape_def NUL_replaceAll)

lemma eleText_cases:
  "CHR 0x00 \<notin> set s \<Longrightarrow> eleText s = Inr (elEscape s)"
  "CHR 0x00 \<in> set s \<Longrightarrow> \<exists>i. eleText s = Inl (InvalidCharacter (elEscape s) i)"
proof -
  assume "CHR 0x00 \<notin> set s"
  then have "illegalCharIndex (elEscape s) = None"
    by (simp add: illegalCharIndex_None NUL_elEscape)
  then show "eleText s = Inr (elEscape s)"
    by (simp add: eleText_def assertLegalChar_def)
next
  assume "CHR 0x00 \<in> set s"
  then have "illegalCharIndex (elEscape s) \<noteq> None"
    by (simp add: illegalCharIndex_None NUL_elEscape)
  then show "\<exists>i. eleText s = Inl (InvalidCharacter (elEscape s) i)"
    by (auto simp: eleText_def assertLegalChar_def)
qed

section \<open>Paths and filesystem calls\<close>

subsection \<open>Resolution of paths\<close>

lemma splitPath_not_Nil: "splitPath p \<noteq> []"
  by (induction p) (auto split: list.splits)

lemma splitPath_slash:
  "splitPath (a @ CHR ''/'' # b) = splitPath a @ splitPath b"
proof (induction a)
  case Nil
  then show ?case by simp
next
  case (Cons x a)
  then show ?case
    using splitPath_not_Nil [of a] by (cases "splitPath a") auto
qed

lemma splitPath_plain:
  "CHR ''/'' \<notin> set c \<Longrightarrow> splitPath c = [c]"
  by (induction c) auto

lemma walk_append:
  "walk fs cur (cs @ ds) =
     (case walk fs cur cs of Inl e \<Rightarrow> Inl e | Inr l \<Rightarrow> walk fs l ds)"
  by (induction cs arbitrary: cur) (auto split: option.splits fsnode.splits)

lemma walk_keepsDirs:
  "keepsDirs fs fs' \<Longrightarrow> walk fs cur cs = Inr l \<Longrightarrow> walk fs' cur cs = Inr l"
proof (induction cs arbitrary: cur)
  case Nil
  then show ?case by simp
next
  case (Cons c cs)
  from Cons.prems(2) have d: "fmlookup fs cur = Some Dir"
    by (auto split: option.splits fsnode.splits)
  with Cons.prems(1) have d': "fmlookup fs' cur = Some Dir"
    by (simp add: keepsDirs_def)
  show ?case
    using Cons.prems Cons.IH d d' by (auto split: if_splits)
qed

lemma walk_empties:
  "fmlookup fs l = Some Dir \<Longrightarrow> walk fs l (replicate k []) = Inr l"
  by (induction k) auto

lemma walk_empties_Inr:
  "walk fs l (replicate k []) = Inr l' \<Longrightarrow> l' = l"
  by (induction k) (auto split: option.splits fsnode.splits)

lemma dropWhile_replicate:
  "\<exists>k. xs = replicate k [] @ dropWhile (\<lambda>c. c = []) xs"
proof (induction xs)
  case Nil
  then show ?case by simp
next
  case (Cons x xs)
  then obtain k where k: "xs = replicate k [] @ dropWhile (\<lambda>c. c = []) xs" by blast
  show ?case
  proof (cases "x = []")
    case True
    with k have "x # xs = replicate (Suc k) [] @ dropWhile (\<lambda>c. c = []) (x # xs)" by simp
    then show ?thesis by blast
  next
    case False
    then have "x # xs = replicate 0 [] @ dropWhile (\<lambda>c. c = []) (x # xs)" by simp
    then show ?thesis by blast
  qed
qed

lemma dropTrailingEmpty_decomp:
  "\<exists>k. comps = dropTrailingEmpty comps @ replicate k []"
proof -
  obtain k where "rev comps = replicate k [] @ dropWhile (\<lambda>c. c = []) (rev comps)"
    using dropWhile_replicate by blast
  then have "rev (rev comps) = rev (replicate k [] @ dropWhile (\<lambda>c. c = []) (rev comps))"
    by simp
  then have "comps = dropTrailingEmpty comps @ replicate k []"
    by (simp add: dropTrailingEmpty_def)
  then show ?thesis by blast
qed

lemma dropTrailingEmpty_snoc:
  "c \<noteq> [] \<Longrightarrow> dropTrailingEmpty (cs @ [c]) = cs @ [c]"
  by (simp add: dropTrailingEmpty_def)

lemma keepsDirs_refl: "keepsDirs fs fs"
  by (simp add: keepsDirs_def)

lemma keepsDirs_trans: "keepsDirs a b \<Longrightarrow> keepsDirs b c \<Longrightarrow> keepsDirs a c"
  by (simp add: keepsDirs_def)

lemma keepsDirs_fmupd:
  "fmlookup fs l \<noteq> Some Dir \<or> n = Dir \<Longrightarrow> keepsDirs fs (fmupd l n fs)"
  by (auto simp: keepsDirs_def)

subsection \<open>Calls that return\<close>

lemma thenDo_Inr:
  assumes "thenDo m f w = (Inr y, w')"
  obtains x w1 where "m w = (Inr x, w1)" and "f x w1 = (Inr y, w')"
  using assms by (auto simp: thenDo_def split: prod.splits sum.splits)

lemma pureCall_Inr:
  assumes "pureCall r w = (Inr x, w')"
  shows "r = Inr x \<and> w' = w"
  using assms by (simp add: pureCall_def)

lemma mkdirSync_Inr:
  assumes "mkdirSync p w = (Inr u, w')"
  shows "\<exists>loc. resolveFrom w p (dropTrailingEmpty (splitPath p)) = Inr loc
           \<and> fmlookup (files w) loc = None
           \<and> w' = w\<lparr>files := fmupd loc Dir (files w), calls := calls w @ [MkdirSync p]\<rparr>"
  using assms
  by (auto simp: mkdirSync_def resolveFrom_def Let_def split: sum.splits option.splits if_splits)

lemma writeFileSync_Inr:
  assumes "writeFileSync p c w = (Inr u, w')"
  shows "\<exists>loc. resolve w p = Inr loc
           \<and> fmlookup (files w) loc \<noteq> Some Dir
           \<and> w' = w\<lparr>files := fmupd loc (File c) (files w), calls := calls w @ [WriteFileSync p c]\<rparr>"
  using assms
  by (auto simp: writeFileSync_def resolve_def resolveFrom_def Let_def
      split: sum.splits option.splits fsnode.splits if_splits)

lemma resolve_target:
  assumes r: "resolveFrom w t (dropTrailingEmpty (splitPath t)) = Inr loc"
    and k: "keepsDirs (files w) (files w')"
    and c: "cwd w' = cwd w"
    and d: "fmlookup (files w') loc = Some Dir"
  shows "resolve w' t = Inr loc"
proof -
  let ?start = "if hd t = CHR ''/'' then [] else cwd w"
  from r have t: "t \<noteq> []" "CHR 0x00 \<notin> set t"
    and wk: "walk (files w) ?start (dropTrailingEmpty (splitPath t)) = Inr loc"
    by (auto simp: resolveFrom_def split: if_splits)
  obtain n where n: "splitPath t = dropTrailingEmpty (splitPath t) @ replicate n []"
    using dropTrailingEmpty_decomp by blast
  from walk_keepsDirs [OF k wk]
  have "walk (files w') ?start (dropTrailingEmpty (splitPath t) @ replicate n []) = Inr loc"
    by (simp add: walk_append walk_empties [OF d])
  with n have "walk (files w') ?start (splitPath t) = Inr loc" by simp
  with t c show ?thesis by (auto simp: resolve_def resolveFrom_def split: if_splits)
qed

lemma resolve_child:
  assumes r: "resolveFrom w t (dropTrailingEmpty (splitPath t)) = Inr loc"
    and k: "keepsDirs (files w) (files w')"
    and c: "cwd w' = cwd w"
    and d: "fmlookup (files w') loc = Some Dir"
    and p: "x \<noteq> []" "x \<noteq> ''.''" "x \<noteq> ''..''" "CHR ''/'' \<notin> set x" "CHR 0x00 \<notin> set x"
  shows "resolve w' (t @ CHR ''/'' # x) = Inr (loc @ [x])"
    and "resolveFrom w' (t @ CHR ''/'' # x) (dropTrailingEmpty (splitPath (t @ CHR ''/'' # x)))
           = Inr (loc @ [x])"
proof -
  from r have t: "t \<noteq> []" "CHR 0x00 \<notin> set t"
    by (auto simp: resolveFrom_def split: if_splits)
  from resolve_target [OF r k c d] t
  have wk: "walk (files w') (if hd t = CHR ''/'' then [] else cwd w') (splitPath t) = Inr loc"
    by (auto simp: resolve_def resolveFrom_def split: if_splits)
  have s: "splitPath (t @ CHR ''/'' # x) = splitPath t @ [x]"
    by (simp add: splitPath_slash splitPath_plain p)
  have h: "hd (t @ CHR ''/'' # x) = hd t" using t by simp
  have "walk (files w') (if hd t = CHR ''/'' then [] else cwd w') (splitPath t @ [x]) = Inr (loc @ [x])"
    using wk d p by (simp add: walk_append)
  then show "resolve w' (t @ CHR ''/'' # x) = Inr (loc @ [x])"
    using t p by (auto simp: resolve_def resolveFrom_def s h split: if_splits)
  then show "resolveFrom w' (t @ CHR ''/'' # x) (dropTrailingEmpty (splitPath (t @ CHR ''/'' # x)))
           = Inr (loc @ [x])"
    using p by (simp add: resolve_def s dropTrailingEmpty_snoc)
qed

lemma resolveFrom_calls:
  "resolveFrom (w\<lparr>calls := c\<rparr>) p cs = resolveFrom w p cs"
  by (simp add: resolveFrom_def)

lemma keepsDirs_step:
  "keepsDirs a b \<Longrightarrow> fmlookup b l \<noteq> Some Dir \<or> n = Dir \<Longrightarrow> keepsDirs a (fmupd l n b)"
  by (auto simp: keepsDirs_def)

subsection \<open>A run of the provisioner\<close>

lemma createProjectFolder_created:
  assumes ne: "lookupPath w (root @ ''/'' @ projectName) = None"
    and ok: "createProjectFolder root projectName javaVersion w = (Inr u, w')"
  obtains loc xml1 xml2 where
    "createProjectFile projectName = Inr xml1"
    "createClassPathFile javaVersion = Inr xml2"
    "resolveFrom w (root @ ''/'' @ projectName)
       (dropTrailingEmpty (splitPath (root @ ''/'' @ projectName))) = Inr loc"
    "fmlookup (files w) loc = None"
    "w' = w\<lparr>files := projectEntries loc xml1 xml2 (files w),
            calls := calls w @ projectCalls (root @ ''/'' @ projectName) xml1 xml2\<rparr>"
    "keepsDirs (files w) (files w')"
proof -
  define t where "t = root @ ''/'' @ projectName"
  define wa where "wa = w\<lparr>calls := calls w @ [ExistsSync t]\<rparr>"
  from ne ok have run:
    "thenDo (mkdirSync t) (\<lambda>u.
       thenDo (pureCall (createProjectFile projectName)) (\<lambda>projectXMLString.
       thenDo (writeFileSync (t @ ''/.project'') projectXMLString) (\<lambda>u.
       thenDo (pureCall (createClassPathFile javaVersion)) (\<lambda>classpathXMLString.
       thenDo (writeFileSync (t @ ''/.classpath'') classpathXMLString) (\<lambda>u.
       thenDo (mkdirSync (t @ ''/src'')) (\<lambda>u.
       mkdirSync (t @ ''/bin''))))))) wa = (Inr u, w')"
    by (simp add: createProjectFolder_def existsSync_def Let_def t_def wa_def)
  from run obtain u1 w1 where m1: "mkdirSync t wa = (Inr u1, w1)"
    and run1: "thenDo (pureCall (createProjectFile projectName)) (\<lambda>projectXMLString.
       thenDo (writeFileSync (t @ ''/.project'') projectXMLString) (\<lambda>u.
       thenDo (pureCall (createClassPathFile javaVersion)) (\<lambda>classpathXMLString.
       thenDo (writeFileSync (t @ ''/.classpath'') classpathXMLString) (\<lambda>u.
       thenDo (mkdirSync (t @ ''/src'')) (\<lambda>u.
       mkdirSync (t @ ''/bin'')))))) w1 = (Inr u, w')"
    by (rule thenDo_Inr)
  from run1 obtain xml1 w1' where p1: "pureCall (createProjectFile projectName) w1 = (Inr xml1, w1')"
    and run2: "thenDo (writeFileSync (t @ ''/.project'') xml1) (\<lambda>u.
       thenDo (pureCall (createClassPathFile javaVersion)) (\<lambda>classpathXMLString.
       thenDo (writeFileSync (t @ ''/.classpath'') classpathXMLString) (\<lambda>u.
       thenDo (mkdirSync (t @ ''/src'')) (\<lambda>u.
       mkdirSync (t @ ''/bin''))))) w1' = (Inr u, w')"
    by (rule thenDo_Inr)
  from pureCall_Inr [OF p1] have x1: "createProjectFile projectName = Inr xml1" and e1: "w1' = w1"
    by simp_all
  from run2 e1 obtain u2 w2 where m2: "writeFileSync (t @ ''/.project'') xml1 w1 = (Inr u2, w2)"
    and run3: "thenDo (pureCall (createClassPathFile javaVersion)) (\<lambda>classpathXMLString.
       thenDo (writeFileSync (t @ ''/.classpath'') classpathXMLString) (\<lambda>u.
       thenDo (mkdirSync (t @ ''/src'')) (\<lambda>u.
       mkdirSync (t @ ''/bin'')))) w2 = (Inr u, w')"
    by (auto elim: thenDo_Inr)
  from run3 obtain xml2 w2' where p2: "pureCall (createClassPathFile javaVersion) w2 = (Inr xml2, w2')"
    and run4: "thenDo (writeFileSync (t @ ''/.classpath'') xml2) (\<lambda>u.
       thenDo (mkdirSync (t @ ''/src'')) (\<lambda>u.
       mkdirSync (t @ ''/bin''))) w2' = (Inr u, w')"
    by (rule thenDo_Inr)
  from pureCall_Inr [OF p2] have x2: "createClassPathFile javaVersion = Inr xml2" and e2: "w2' = w2"
    by simp_all
  from run4 e2 obtain u3 w3 where m3: "writeFileSync (t @ ''/.classpath'') xml2 w2 = (Inr u3, w3)"
    and run5: "thenDo (mkdirSync (t @ ''/src'')) (\<lambda>u. mkdirSync (t @ ''/bin'')) w3 = (Inr u, w')"
    by (auto elim: thenDo_Inr)
  from run5 obtain u4 w4 where m4: "mkdirSync (t @ ''/src'') w3 = (Inr u4, w4)"
    and m5: "mkdirSync (t @ ''/bin'') w4 = (Inr u, w')"
    by (rule thenDo_Inr)
  \<comment> \<open>the project directory\<close>
  from mkdirSync_Inr [OF m1] obtain loc where
    r0: "resolveFrom wa t (dropTrailingEmpty (splitPath t)) = Inr loc"
    and n0: "fmlookup (files wa) loc = None"
    and w1: "w1 = wa\<lparr>files := fmupd loc Dir (files wa), calls := calls wa @ [MkdirSync t]\<rparr>"
    by blast
  have r: "resolveFrom w t (dropTrailingEmpty (splitPath t)) = Inr loc"
    using r0 by (simp add: resolveFrom_calls wa_def)
  have n: "fmlookup (files w) loc = None"
    using n0 by (simp add: wa_def)
  have k1: "keepsDirs (files w) (files w1)" "cwd w1 = cwd w" "fmlookup (files w1) loc = Some Dir"
    using n by (simp_all add: w1 wa_def keepsDirs_def)
  \<comment> \<open>.project\<close>
  from writeFileSync_Inr [OF m2] resolve_child(1) [OF r k1, of "''.project''"]
  have w2: "w2 = w1\<lparr>files := fmupd (loc @ [''.project'']) (File xml1) (files w1),
                    calls := calls w1 @ [WriteFileSync (t @ ''/.project'') xml1]\<rparr>"
    and d2: "fmlookup (files w1) (loc @ [''.project'']) \<noteq> Some Dir"
    by auto
  have k2: "keepsDirs (files w) (files w2)" "cwd w2 = cwd w" "fmlookup (files w2) loc = Some Dir"
    using k1 d2 by (simp_all add: w2 keepsDirs_step)
  \<comment> \<open>.classpath\<close>
  from writeFileSync_Inr [OF m3] resolve_child(1) [OF r k2, of "''.classpath''"]
  have w3: "w3 = w2\<lparr>files := fmupd (loc @ [''.classpath'']) (File xml2) (files w2),
                    calls := calls w2 @ [WriteFileSync (t @ ''/.classpath'') xml2]\<rparr>"
    and d3: "fmlookup (files w2) (loc @ [''.classpath'']) \<noteq> Some Dir"
    by auto
  have k3: "keepsDirs (files w) (files w3)" "cwd w3 = cwd w" "fmlookup (files w3) loc = Some Dir"
    using k2 d3 by (simp_all add: w3 keepsDirs_step)
  \<comment> \<open>src\<close>
  from mkdirSync_Inr [OF m4] resolve_child(2) [OF r k3, of "''src''"]
  have w4: "w4 = w3\<lparr>files := fmupd (loc @ [''src'']) Dir (files w3),
                    calls := calls w3 @ [MkdirSync (t @ ''/src'')]\<rparr>"
    by auto
  have k4: "keepsDirs (files w) (files w4)" "cwd w4 = cwd w" "fmlookup (files w4) loc = Some Dir"
    using k3 by (simp_all add: w4 keepsDirs_step)
  \<comment> \<open>bin\<close>
  from mkdirSync_Inr [OF m5] resolve_child(2) [OF r k4, of "''bin''"]
  have w5: "w' = w4\<lparr>files := fmupd (loc @ [''bin'']) Dir (files w4),
                    calls := calls w4 @ [MkdirSync (t @ ''/bin'')]\<rparr>"
    by auto
  have "w' = w\<lparr>files := projectEntries loc xml1 xml2 (files w),
            calls := calls w @ projectCalls t xml1 xml2\<rparr>"
    by (simp add: w5 w4 w3 w2 w1 wa_def projectEntries_def projectCalls_def)
  moreover have "keepsDirs (files w) (files w')"
    using k4 by (simp add: w5 keepsDirs_step)
  ultimately show thesis
    using x1 x2 r n that unfolding t_def by blast
qed

lemma createProjectFolder_exists:
  assumes "lookupPath w (root @ ''/'' @ projectName) \<noteq> None"
  shows "createProjectFolder root projectName javaVersion w =
           (Inr (), w\<lparr>calls := calls w @ [ExistsSync (root @ ''/'' @ projectName)],
                       messages := messages w @ [AlreadyExists projectName]\<rparr>)"
  using assms
  by (simp add: createProjectFolder_def existsSync_def showErrorMessage_def Let_def)

lemma lookupPath_calls_messages:
  "lookupPath (w\<lparr>calls := c, messages := m\<rparr>) p = lookupPath w p"
  by (simp add: lookupPath_def resolve_def resolveFrom_def split: sum.splits)

lemma createProjectFolder_then_exists:
  assumes ok: "createProjectFolder root projectName javaVersion w = (Inr u, w1)"
  shows "lookupPath w1 (root @ ''/'' @ projectName) \<noteq> None"
proof (cases "lookupPath w (root @ ''/'' @ projectName) = None")
  case False
  with ok createProjectFolder_exists [OF False, of javaVersion] show ?thesis
    by (auto simp: lookupPath_calls_messages)
next
  case True
  from createProjectFolder_created [OF True ok] obtain loc xml1 xml2 where
    r: "resolveFrom w (root @ ''/'' @ projectName)
          (dropTrailingEmpty (splitPath (root @ ''/'' @ projectName))) = Inr loc"
    and w1: "w1 = w\<lparr>files := projectEntries loc xml1 xml2 (files w),
            calls := calls w @ projectCalls (root @ ''/'' @ projectName) xml1 xml2\<rparr>"
    and k: "keepsDirs (files w) (files w1)"
    by blast
  have d: "fmlookup (files w1) loc = Some Dir"
    by (simp add: w1 projectEntries_def)
  have c: "cwd w1 = cwd w" by (simp add: w1)
  from resolve_target [OF r k c d] d show ?thesis
    by (simp add: lookupPath_def)
qed

lemma isDirectory_slash:
  assumes "isDirectory w root"
  shows "resolve w (root @ ''/'') = resolve w root" and "lookupPath w (root @ ''/'') = Some Dir"
proof -
  from assms obtain loc where r: "resolve w root = Inr loc" and d: "fmlookup (files w) loc = Some Dir"
    by (auto simp: isDirectory_def lookupPath_def split: sum.splits)
  from r have t: "root \<noteq> []" "CHR 0x00 \<notin> set root"
    and wk: "walk (files w) (if hd root = CHR ''/'' then [] else cwd w) (splitPath root) = Inr loc"
    by (auto simp: resolve_def resolveFrom_def split: if_splits)
  have s: "splitPath (root @ ''/'') = splitPath root @ [[]]"
    using splitPath_slash [of root "[]"] by simp
  have "walk (files w) (if hd root = CHR ''/'' then [] else cwd w) (splitPath root @ [[]]) = Inr loc"
    using wk d by (simp add: walk_append)
  with t s have "resolve w (root @ ''/'') = Inr loc"
    by (auto simp: resolve_def resolveFrom_def split: if_splits)
  with r d show "resolve w (root @ ''/'') = resolve w root"
    and "lookupPath w (root @ ''/'') = Some Dir"
    by (simp_all add: lookupPath_def)
qed

subsection \<open>The calls of a run\<close>

lemma mkdirSync_calls:
  "mkdirSync p w = (r, w') \<Longrightarrow> calls w' = calls w @ [MkdirSync p]"
  by (auto simp: mkdirSync_def Let_def split: sum.splits option.splits)

lemma writeFileSync_calls:
  "writeFileSync p c w = (r, w') \<Longrightarrow> calls w' = calls w @ [WriteFileSync p c]"
  by (auto simp: writeFileSync_def Let_def split: sum.splits option.splits fsnode.splits)

lemma call_prefix:
  assumes "\<And>r w'. m w = (r, w') \<Longrightarrow> calls w' = calls w @ [c]"
  shows "\<exists>cs. calls (snd (m w)) = calls w @ cs \<and> prefix cs [c]"
  using assms [of "fst (m w)" "snd (m w)"] by simp

lemma thenDo_call_prefix:
  assumes m: "\<And>r w'. m w = (r, w') \<Longrightarrow> calls w' = calls w @ [c]"
    and f: "\<And>x w'. \<exists>cs. calls (snd (f x w')) = calls w' @ cs \<and> prefix cs rest"
  shows "\<exists>cs. calls (snd (thenDo m f w)) = calls w @ cs \<and> prefix cs (c # rest)"
proof (cases "m w")
  case (Pair r w')
  note c = m [OF Pair]
  show ?thesis
  proof (cases r)
    case (Inl e)
    with Pair c show ?thesis by (simp add: thenDo_def)
  next
    case (Inr x)
    from f [of x w'] obtain cs where "calls (snd (f x w')) = calls w' @ cs" "prefix cs rest"
      by blast
    with Pair Inr c have "calls (snd (thenDo m f w)) = calls w @ (c # cs) \<and> prefix (c # cs) (c # rest)"
      by (simp add: thenDo_def)
    then show ?thesis by blast
  qed
qed

lemma thenDo_pure_prefix:
  assumes "\<And>x. r = Inr x \<Longrightarrow> \<exists>cs. calls (snd (f x w)) = calls w @ cs \<and> prefix cs rest"
  shows "\<exists>cs. calls (snd (thenDo (pureCall r) f w)) = calls w @ cs \<and> prefix cs rest"
proof (cases r)
  case (Inl e)
  then show ?thesis by (simp add: thenDo_def pureCall_def)
next
  case (Inr x)
  with assms [OF Inr] show ?thesis by (simp add: thenDo_def pureCall_def)
qed

lemma createProjectFolder_calls_prefix:
  "\<exists>cs. calls (snd (createProjectFolder root projectName javaVersion w)) = calls w @ cs
        \<and> prefix cs (projectCalls (root @ ''/'' @ projectName)
                       (case createProjectFile projectName of Inl e \<Rightarrow> [] | Inr x \<Rightarrow> x)
                       (case createClassPathFile javaVersion of Inl e \<Rightarrow> [] | Inr x \<Rightarrow> x))"
proof -
  define t where "t = root @ ''/'' @ projectName"
  define x1 where "x1 = (case createProjectFile projectName of Inl e \<Rightarrow> [] | Inr x \<Rightarrow> x)"
  define x2 where "x2 = (case createClassPathFile javaVersion of Inl e \<Rightarrow> [] | Inr x \<Rightarrow> x)"
  have s6: "\<exists>cs. calls (snd (mkdirSync (t @ ''/bin'') w')) = calls w' @ cs
        \<and> prefix cs [MkdirSync (t @ ''/bin'')]" for w'
    by (rule call_prefix) (erule mkdirSync_calls)
  have s5: "\<exists>cs. calls (snd (thenDo (mkdirSync (t @ ''/src'')) (\<lambda>u. mkdirSync (t @ ''/bin'')) w'))
                 = calls w' @ cs
        \<and> prefix cs [MkdirSync (t @ ''/src''), MkdirSync (t @ ''/bin'')]" for w'
    by (rule thenDo_call_prefix) (erule mkdirSync_calls, rule s6)
  have s4: "\<exists>cs. calls (snd (thenDo (writeFileSync (t @ ''/.classpath'') x)
                   (\<lambda>u. thenDo (mkdirSync (t @ ''/src'')) (\<lambda>u. mkdirSync (t @ ''/bin''))) w'))
                 = calls w' @ cs
        \<and> prefix cs [WriteFileSync (t @ ''/.classpath'') x,
                      MkdirSync (t @ ''/src''), MkdirSync (t @ ''/bin'')]" for x w'
    by (rule thenDo_call_prefix) (erule writeFileSync_calls, rule s5)
  have s3: "\<exists>cs. calls (snd (thenDo (pureCall (createClassPathFile javaVersion))
                   (\<lambda>classpathXMLString.
                      thenDo (writeFileSync (t @ ''/.classpath'') classpathXMLString)
                        (\<lambda>u. thenDo (mkdirSync (t @ ''/src'')) (\<lambda>u. mkdirSync (t @ ''/bin'')))) w'))
                 = calls w' @ cs
        \<and> prefix cs [WriteFileSync (t @ ''/.classpath'') x2,
                      MkdirSync (t @ ''/src''), MkdirSync (t @ ''/bin'')]" for w'
  proof (rule thenDo_pure_prefix)
    fix x assume "createClassPathFile javaVersion = Inr x"
    then have "x2 = x" by (simp add: x2_def)
    with s4 [of x w'] show "\<exists>cs. calls (snd (thenDo (writeFileSync (t @ ''/.classpath'') x)
                   (\<lambda>u. thenDo (mkdirSync (t @ ''/src'')) (\<lambda>u. mkdirSync (t @ ''/bin''))) w'))
                 = calls w' @ cs
        \<and> prefix cs [WriteFileSync (t @ ''/.classpath'') x2,
                      MkdirSync (t @ ''/src''), MkdirSync (t @ ''/bin'')]"
      by simp
  qed
  have s2: "\<exists>cs. calls (snd (thenDo (writeFileSync (t @ ''/.project'') x)
              (\<lambda>u. thenDo (pureCall (createClassPathFile javaVersion))
                   (\<lambda>classpathXMLString.
                      thenDo (writeFileSync (t @ ''/.classpath'') classpathXMLString)
                        (\<lambda>u. thenDo (mkdirSync (t @ ''/src'')) (\<lambda>u. mkdirSync (t @ ''/bin''))))) w'))
                 = calls w' @ cs
        \<and> prefix cs [WriteFileSync (t @ ''/.project'') x,
                      WriteFileSync (t @ ''/.classpath'') x2,
                      MkdirSync (t @ ''/src''), MkdirSync (t @ ''/bin'')]" for x w'
    by (rule thenDo_call_prefix) (erule writeFileSync_calls, rule s3)
  have s1: "\<exists>cs. calls (snd (thenDo (pureCall (createProjectFile projectName))
            (\<lambda>projectXMLString. thenDo (writeFileSync (t @ ''/.project'') projectXMLString)
              (\<lambda>u. thenDo (pureCall (createClassPathFile javaVersion))
                   (\<lambda>classpathXMLString.
                      thenDo (writeFileSync (t @ ''/.classpath'') classpathXMLString)
                        (\<lambda>u. thenDo (mkdirSync (t @ ''/src'')) (\<lambda>u. mkdirSync (t @ ''/bin'')))))) w'))
                 = calls w' @ cs
        \<and> prefix cs [WriteFileSync (t @ ''/.project'') x1,
                      WriteFileSync (t @ ''/.classpath'') x2,
                      MkdirSync (t @ ''/src''), MkdirSync (t @ ''/bin'')]" for w'
  proof (rule thenDo_pure_prefix)
    fix x assume "createProjectFile projectName = Inr x"
    then have "x1 = x" by (simp add: x1_def)
    with s2 [of x w'] show "\<exists>cs. calls (snd (thenDo (writeFileSync (t @ ''/.project'') x)
              (\<lambda>u. thenDo (pureCall (createClassPathFile javaVersion))
                   (\<lambda>classpathXMLString.
                      thenDo (writeFileSync (t @ ''/.classpath'') classpathXMLString)
                        (\<lambda>u. thenDo (mkdirSync (t @ ''/src'')) (\<lambda>u. mkdirSync (t @ ''/bin''))))) w'))
                 = calls w' @ cs
        \<and> prefix cs [WriteFileSync (t @ ''/.project'') x1,
                      WriteFileSync (t @ ''/.classpath'') x2,
                      MkdirSync (t @ ''/src''), MkdirSync (t @ ''/bin'')]"
      by simp
  qed
  have s0: "\<exists>cs. calls (snd (thenDo (mkdirSync t)
          (\<lambda>u. thenDo (pureCall (createProjectFile projectName))
            (\<lambda>projectXMLString. thenDo (writeFileSync (t @ ''/.project'') projectXMLString)
              (\<lambda>u. thenDo (pureCall (createClassPathFile javaVersion))
                   (\<lambda>classpathXMLString.
                      thenDo (writeFileSync (t @ ''/.classpath'') classpathXMLString)
                        (\<lambda>u. thenDo (mkdirSync (t @ ''/src'')) (\<lambda>u. mkdirSync (t @ ''/bin''))))))) w'))
                 = calls w' @ cs
        \<and> prefix cs [MkdirSync t, WriteFileSync (t @ ''/.project'') x1,
                      WriteFileSync (t @ ''/.classpath'') x2,
                      MkdirSync (t @ ''/src''), MkdirSync (t @ ''/bin'')]" for w'
    by (rule thenDo_call_prefix) (erule mkdirSync_calls, rule s1)
  show ?thesis
  proof (cases "lookupPath w t = None")
    case False
    then have "calls (snd (createProjectFolder root projectName javaVersion w))
                 = calls w @ [ExistsSync t]
               \<and> prefix [ExistsSync t] (projectCalls t x1 x2)"
      by (simp add: createProjectFolder_exists t_def projectCalls_def)
    then show ?thesis unfolding t_def x1_def x2_def by blast
  next
    case True
    from s0 [of "w\<lparr>calls := calls w @ [ExistsSync t]\<rparr>"] obtain cs where
      "calls (snd (createProjectFolder root projectName javaVersion w))
         = calls w @ (ExistsSync t # cs)
       \<and> prefix (ExistsSync t # cs) (projectCalls t x1 x2)"
      using True by (auto simp: createProjectFolder_def existsSync_def Let_def t_def projectCalls_def)
    then show ?thesis unfolding t_def x1_def x2_def by blast
  qed
qed

lemma write_after_mkdir:
  assumes "prefix cs (projectCalls t x1 x2)" and "WriteFileSync p c \<in> set cs"
  shows "calledBefore (MkdirSync t) (WriteFileSync p c) cs"
  using assms
  by (auto simp: projectCalls_def prefix_Cons calledBefore_def)

subsection \<open>The entries of the new directory\<close>

lemma butlast_self: "butlast l = l \<Longrightarrow> l = []"
  by (cases l rule: rev_cases) auto

lemma no_entries_below:
  assumes wf: "wellFormed fs" and n: "fmlookup fs loc = None"
  shows "l |\<in>| fmdom fs \<Longrightarrow> l \<noteq> [] \<Longrightarrow> butlast l \<noteq> loc"
    and "l |\<in>| fmdom fs \<Longrightarrow> l \<noteq> [] \<Longrightarrow> butlast l \<noteq> loc @ [x]"
proof -
  have par: "fmlookup fs (butlast m) = Some Dir" if "m |\<in>| fmdom fs" "m \<noteq> []" for m
    using wf that by (auto simp: wellFormed_def)
  show "l |\<in>| fmdom fs \<Longrightarrow> l \<noteq> [] \<Longrightarrow> butlast l \<noteq> loc"
    using par [of l] n by auto
  show "l |\<in>| fmdom fs \<Longrightarrow> l \<noteq> [] \<Longrightarrow> butlast l \<noteq> loc @ [x]"
  proof
    assume l: "l |\<in>| fmdom fs" "l \<noteq> []" and b: "butlast l = loc @ [x]"
    from par [OF l] b have "fmlookup fs (loc @ [x]) = Some Dir" by simp
    then have "loc @ [x] |\<in>| fmdom fs" by (rule fmdomI)
    from par [OF this] n show False by simp
  qed
qed

lemma projectEntries_listing:
  assumes wf: "wellFormed fs" and n: "fmlookup fs loc = None"
  shows "last |`| ffilter (\<lambda>l. l \<noteq> [] \<and> butlast l = loc) (fmdom (projectEntries loc x1 x2 fs))
           = {|''.project'', ''.classpath'', ''src'', ''bin''|}"
    and "ffilter (\<lambda>l. l \<noteq> [] \<and> butlast l = loc @ [x]) (fmdom (projectEntries loc x1 x2 fs)) = {||}"
proof -
  let ?new = "{|loc @ [''.project''], loc @ [''.classpath''], loc @ [''src''], loc @ [''bin'']|}"
  have d: "fmdom (projectEntries loc x1 x2 fs) = ?new |\<union>| finsert loc (fmdom fs)"
    by (auto simp: projectEntries_def)
  have old: "\<not> (l \<noteq> [] \<and> butlast l = loc)" "\<not> (l \<noteq> [] \<and> butlast l = loc @ [x])"
    if "l |\<in>| finsert loc (fmdom fs)" for l
  proof -
    from that consider "l = loc" | "l |\<in>| fmdom fs" by auto
    then show "\<not> (l \<noteq> [] \<and> butlast l = loc)"
    proof cases
      case 1
      then show ?thesis using butlast_self [of loc] by auto
    next
      case 2
      then show ?thesis using no_entries_below(1) [OF wf n, of l] by auto
    qed
    from that consider "l = loc" | "l |\<in>| fmdom fs" by auto
    then show "\<not> (l \<noteq> [] \<and> butlast l = loc @ [x])"
    proof cases
      case 1
      have "length (butlast loc) \<noteq> length (loc @ [x])" by simp
      then have "butlast loc \<noteq> loc @ [x]" by fastforce
      with 1 show ?thesis by simp
    next
      case 2
      then show ?thesis using no_entries_below(2) [OF wf n, of l x] by auto
    qed
  qed
  have "ffilter (\<lambda>l. l \<noteq> [] \<and> butlast l = loc) (fmdom (projectEntries loc x1 x2 fs)) = ?new"
  proof (rule fset_eqI)
    fix l
    show "l |\<in>| ffilter (\<lambda>l. l \<noteq> [] \<and> butlast l = loc) (fmdom (projectEntries loc x1 x2 fs))
            \<longleftrightarrow> l |\<in>| ?new"
      unfolding d using old(1) [of l] by auto
  qed
  then show "last |`| ffilter (\<lambda>l. l \<noteq> [] \<and> butlast l = loc) (fmdom (projectEntries loc x1 x2 fs))
           = {|''.project'', ''.classpath'', ''src'', ''bin''|}"
    by simp
  show "ffilter (\<lambda>l. l \<noteq> [] \<and> butlast l = loc @ [x]) (fmdom (projectEntries loc x1 x2 fs)) = {||}"
  proof (rule fset_eqI)
    fix l
    show "l |\<in>| ffilter (\<lambda>l. l \<noteq> [] \<and> butlast l = loc @ [x]) (fmdom (projectEntries loc x1 x2 fs))
            \<longleftrightarrow> l |\<in>| {||}"
      unfolding d using old(2) [of l] by auto
  qed
qed

subsection \<open>Runs that return\<close>

lemma resolve_stripped:
  assumes "resolve w p = Inr loc"
  shows "resolveFrom w p (dropTrailingEmpty (splitPath p)) = Inr loc"
proof -
  let ?start = "if hd p = CHR ''/'' then [] else cwd w"
  from assms have t: "p \<noteq> []" "CHR 0x00 \<notin> set p"
    and wk: "walk (files w) ?start (splitPath p) = Inr loc"
    by (auto simp: resolve_def resolveFrom_def split: if_splits)
  obtain n where n: "splitPath p = dropTrailingEmpty (splitPath p) @ replicate n []"
    using dropTrailingEmpty_decomp by blast
  from wk n have "walk (files w) ?start (dropTrailingEmpty (splitPath p) @ replicate n []) = Inr loc"
    by simp
  then obtain l where l: "walk (files w) ?start (dropTrailingEmpty (splitPath p)) = Inr l"
    and e: "walk (files w) l (replicate n []) = Inr loc"
    by (auto simp: walk_append split: sum.splits)
  from walk_empties_Inr [OF e] l t show ?thesis
    by (auto simp: resolveFrom_def split: if_splits)
qed

lemma mkdirSync_ok:
  assumes "resolveFrom w p (dropTrailingEmpty (splitPath p)) = Inr loc"
    and "fmlookup (files w) loc = None"
  shows "mkdirSync p w
           = (Inr (), w\<lparr>files := fmupd loc Dir (files w), calls := calls w @ [MkdirSync p]\<rparr>)"
  using assms by (simp add: mkdirSync_def Let_def resolveFrom_calls)

lemma writeFileSync_ok:
  assumes "resolve w p = Inr loc" and "fmlookup (files w) loc = None"
  shows "writeFileSync p x w
           = (Inr (), w\<lparr>files := fmupd loc (File x) (files w),
                        calls := calls w @ [WriteFileSync p x]\<rparr>)"
  using assms by (simp add: writeFileSync_def Let_def resolve_def resolveFrom_calls)

lemma createProjectFolder_succeeds:
  assumes wf: "wellFormed (files w)"
    and d: "isDirectory w root"
    and p: "x \<noteq> []" "x \<noteq> ''.''" "x \<noteq> ''..''" "CHR ''/'' \<notin> set x" "CHR 0x00 \<notin> set x"
    and ne: "lookupPath w (root @ ''/'' @ x) = None"
  shows "fst (createProjectFolder root x javaVersion w) = Inr ()"
proof -
  define t where "t = root @ CHR ''/'' # x"
  define wa where "wa = w\<lparr>calls := calls w @ [ExistsSync t]\<rparr>"
  from d obtain rl where rr: "resolve w root = Inr rl" and rd: "fmlookup (files w) rl = Some Dir"
    by (auto simp: isDirectory_def lookupPath_def split: sum.splits)
  define loc where "loc = rl @ [x]"
  have r: "resolveFrom w t (dropTrailingEmpty (splitPath t)) = Inr loc"
    and rt: "resolve w t = Inr loc"
    using resolve_child [OF resolve_stripped [OF rr] keepsDirs_refl refl rd p]
    by (simp_all add: t_def loc_def)
  from ne rt have n: "fmlookup (files w) loc = None"
    by (simp add: lookupPath_def t_def)
  have below: "fmlookup (files w) (loc @ [y]) = None" for y
    using no_entries_below(1) [OF wf n, of "loc @ [y]"]
    by (cases "fmlookup (files w) (loc @ [y])") (auto simp: fmlookup_dom_iff)
  obtain xml1 where x1: "createProjectFile x = Inr xml1"
    using p(5) by (simp add: createProjectFile_text eleText_cases(1))
  obtain xml2 where x2: "createClassPathFile javaVersion = Inr xml2"
    by (simp add: createClassPathFile_text)
  \<comment> \<open>the five calls\<close>
  define w1 where "w1 = wa\<lparr>files := fmupd loc Dir (files wa), calls := calls wa @ [MkdirSync t]\<rparr>"
  have m1: "mkdirSync t wa = (Inr (), w1)"
    unfolding w1_def using r n by (intro mkdirSync_ok) (simp_all add: wa_def resolveFrom_calls)
  have k1: "keepsDirs (files w) (files w1)" "cwd w1 = cwd w" "fmlookup (files w1) loc = Some Dir"
    using n by (simp_all add: w1_def wa_def keepsDirs_def)
  define w2 where "w2 = w1\<lparr>files := fmupd (loc @ [''.project'']) (File xml1) (files w1),
                      calls := calls w1 @ [WriteFileSync (t @ ''/.project'') xml1]\<rparr>"
  have m2: "writeFileSync (t @ ''/.project'') xml1 w1 = (Inr (), w2)"
    unfolding w2_def using resolve_child(1) [OF r k1, of "''.project''"] below [of "''.project''"]
    by (intro writeFileSync_ok) (simp_all add: w1_def wa_def)
  have k2: "keepsDirs (files w) (files w2)" "cwd w2 = cwd w" "fmlookup (files w2) loc = Some Dir"
    using k1 below [of "''.project''"] by (simp_all add: w2_def w1_def wa_def keepsDirs_step)
  define w3 where "w3 = w2\<lparr>files := fmupd (loc @ [''.classpath'']) (File xml2) (files w2),
                      calls := calls w2 @ [WriteFileSync (t @ ''/.classpath'') xml2]\<rparr>"
  have m3: "writeFileSync (t @ ''/.classpath'') xml2 w2 = (Inr (), w3)"
    unfolding w3_def using resolve_child(1) [OF r k2, of "''.classpath''"] below [of "''.classpath''"]
    by (intro writeFileSync_ok) (simp_all add: w2_def w1_def wa_def)
  have k3: "keepsDirs (files w) (files w3)" "cwd w3 = cwd w" "fmlookup (files w3) loc = Some Dir"
    using k2 below [of "''.classpath''"]
    by (simp_all add: w3_def w2_def w1_def wa_def keepsDirs_step)
  define w4 where "w4 = w3\<lparr>files := fmupd (loc @ [''src'']) Dir (files w3),
                      calls := calls w3 @ [MkdirSync (t @ ''/src'')]\<rparr>"
  have m4: "mkdirSync (t @ ''/src'') w3 = (Inr (), w4)"
    unfolding w4_def using resolve_child(2) [OF r k3, of "''src''"] below [of "''src''"]
    by (intro mkdirSync_ok) (simp_all add: w3_def w2_def w1_def wa_def)
  have k4: "keepsDirs (files w) (files w4)" "cwd w4 = cwd w" "fmlookup (files w4) loc = Some Dir"
    using k3 by (simp_all add: w4_def keepsDirs_step)
  have m5: "\<exists>w5. mkdirSync (t @ ''/bin'') w4 = (Inr (), w5)"
    using mkdirSync_ok [of w4 "t @ ''/bin''" "loc @ [''bin'']"]
      resolve_child(2) [OF r k4, of "''bin''"] below [of "''bin''"]
    by (simp add: w4_def w3_def w2_def w1_def wa_def)
  then obtain w5 where m5: "mkdirSync (t @ ''/bin'') w4 = (Inr (), w5)" by blast
  have "createProjectFolder root x javaVersion w = (Inr (), w5)"
    using ne
    using m1 m2 m3 m4 m5 unfolding t_def wa_def createProjectFolder_def
    by (simp add: existsSync_def Let_def thenDo_def pureCall_def x1 x2)
  then show ?thesis by simp
qed

lemma createProjectFolder_entries:
  assumes wf: "wellFormed (files w)"
    and ne: "lookupPath w (root @ ''/'' @ projectName) = None"
    and ok: "fst (createProjectFolder root projectName javaVersion w) = Inr ()"
  shows "let t = root @ ''/'' @ projectName;
             w' = snd (createProjectFolder root projectName javaVersion w)
         in isDirectory w' t
            \<and> readdirSync w' t = Inr {|''.project'', ''.classpath'', ''src'', ''bin''|}
            \<and> isDirectory w' (t @ ''/src'') \<and> readdirSync w' (t @ ''/src'') = Inr {||}
            \<and> isDirectory w' (t @ ''/bin'') \<and> readdirSync w' (t @ ''/bin'') = Inr {||}
            \<and> (\<exists>xml. createProjectFile projectName = Inr xml
                  \<and> lookupPath w' (t @ ''/.project'') = Some (File xml))
            \<and> (\<exists>xml. createClassPathFile javaVersion = Inr xml
                  \<and> lookupPath w' (t @ ''/.classpath'') = Some (File xml))"
proof -
  define t where "t = root @ ''/'' @ projectName"
  define w' where "w' = snd (createProjectFolder root projectName javaVersion w)"
  from ok have run: "createProjectFolder root projectName javaVersion w = (Inr (), w')"
    by (simp add: w'_def prod_eq_iff)
  from createProjectFolder_created [OF ne run] obtain loc xml1 xml2 where
    x1: "createProjectFile projectName = Inr xml1"
    and x2: "createClassPathFile javaVersion = Inr xml2"
    and r: "resolveFrom w t (dropTrailingEmpty (splitPath t)) = Inr loc"
    and n: "fmlookup (files w) loc = None"
    and w': "w' = w\<lparr>files := projectEntries loc xml1 xml2 (files w),
                   calls := calls w @ projectCalls t xml1 xml2\<rparr>"
    and k: "keepsDirs (files w) (files w')"
    unfolding t_def by blast
  have f: "files w' = projectEntries loc xml1 xml2 (files w)" and c: "cwd w' = cwd w"
    by (simp_all add: w')
  have d: "fmlookup (files w') loc = Some Dir"
    by (simp add: f projectEntries_def)
  have rt: "resolve w' t = Inr loc"
    by (rule resolve_target [OF r k c d])
  have rc: "resolve w' (t @ ''/.project'') = Inr (loc @ [''.project''])"
    "resolve w' (t @ ''/.classpath'') = Inr (loc @ [''.classpath''])"
    "resolve w' (t @ ''/src'') = Inr (loc @ [''src''])"
    "resolve w' (t @ ''/bin'') = Inr (loc @ [''bin''])"
    using resolve_child(1) [OF r k c d, of "''.project''"]
      resolve_child(1) [OF r k c d, of "''.classpath''"]
      resolve_child(1) [OF r k c d, of "''src''"]
      resolve_child(1) [OF r k c d, of "''bin''"]
    by simp_all
  have l: "fmlookup (files w') (loc @ [''.project'']) = Some (File xml1)"
    "fmlookup (files w') (loc @ [''.classpath'']) = Some (File xml2)"
    "fmlookup (files w') (loc @ [''src'']) = Some Dir"
    "fmlookup (files w') (loc @ [''bin'']) = Some Dir"
    by (simp_all add: f projectEntries_def)
  have "isDirectory w' t"
    by (simp add: isDirectory_def lookupPath_def rt d)
  moreover have "readdirSync w' t = Inr {|''.project'', ''.classpath'', ''src'', ''bin''|}"
    using projectEntries_listing(1) [OF wf n, of xml1 xml2]
    by (simp add: readdirSync_def rt d f [symmetric])
  moreover have "isDirectory w' (t @ ''/src'')" "isDirectory w' (t @ ''/bin'')"
    by (simp_all add: isDirectory_def lookupPath_def rc l)
  moreover have "readdirSync w' (t @ ''/src'') = Inr {||}"
    using projectEntries_listing(2) [OF wf n, of "''src''" xml1 xml2]
    by (simp add: readdirSync_def rc l f [symmetric])
  moreover have "readdirSync w' (t @ ''/bin'') = Inr {||}"
    using projectEntries_listing(2) [OF wf n, of "''bin''" xml1 xml2]
    by (simp add: readdirSync_def rc l f [symmetric])
  moreover have "lookupPath w' (t @ ''/.project'') = Some (File xml1)"
    "lookupPath w' (t @ ''/.classpath'') = Some (File xml2)"
    by (simp_all add: lookupPath_def rc l)
  ultimately show ?thesis
    using x1 x2 unfolding Let_def t_def w'_def by simp
qed

section \<open>The workspace loop and an example run\<close>

declare findFolderLoop.simps [simp del]

lemma findFolderLoop_find:
  "findFolderLoop baseName folders i =
     map_option (\<lambda>f. fsPath (uri f))
       (find (\<lambda>f. basename (fsPath (uri f)) = baseName) (drop i folders))"
proof (induction baseName folders i rule: findFolderLoop.induct)
  case (1 baseName folders i)
  show ?case
  proof (cases "i < length folders")
    case True
    then have d: "drop i folders = folders ! i # drop (i + 1) folders"
      by (simp add: Cons_nth_drop_Suc)
    show ?thesis
    proof (cases "basename (fsPath (uri (folders ! i))) = baseName")
      case True
      with \<open>i < length folders\<close> d show ?thesis
        by (subst findFolderLoop.simps) simp
    next
      case False
      with \<open>i < length folders\<close> d "1.IH" [OF \<open>i < length folders\<close> refl False] show ?thesis
        by (subst findFolderLoop.simps) simp
    qed
  next
    case False
    then show ?thesis
      by (subst findFolderLoop.simps) simp
  qed
qed

lemma exampleWorld_lookups:
  "lookupPath exampleWorld ''/tmp'' = Some Dir"
  "lookupPath exampleWorld ''/tmp/'' = Some Dir"
  "lookupPath exampleWorld ''/tmp/p'' = None"
  "wellFormed (files exampleWorld)"
  by (simp_all add: lookupPath_def exampleWorld_def resolve_def resolveFrom_def wellFormed_def)

lemma example_run:
  "fst (createProjectFolder ''/tmp'' ''p'' ''J'' exampleWorld) = Inr ()"
  apply (simp add: createProjectFolder_def existsSync_def exampleWorld_lookups Let_def)
  apply (simp add: thenDo_def pureCall_def
      createProjectFile_text createClassPathFile_text eleText_def elEscape_def assertLegalChar_def
      mkdirSync_def writeFileSync_def resolve_def resolveFrom_def dropTrailingEmpty_def
      exampleWorld_def Let_def)
  done


section \<open>The reader on the builders' output\<close>

lemma normalizeEOL_id: "CHR 0x0D \<notin> set s \<Longrightarrow> normalizeEOL s = s"
  by (induction s rule: normalizeEOL.induct) auto

lemma replaceAll_removes: "c \<notin> set rep \<Longrightarrow> c \<notin> set (replaceAll c rep s)"
  by (induction s) auto

lemma replaceAll_keeps_out: "x \<notin> set s \<Longrightarrow> x \<notin> set rep \<Longrightarrow> x \<notin> set (replaceAll c rep s)"
  by (induction s) auto

lemma elEscape_free:
  "CHR 0x0D \<notin> set (elEscape s)" "CHR ''<'' \<notin> set (elEscape s)"
  by (simp_all add: elEscape_def replaceAll_removes replaceAll_keeps_out)

lemma attEscape_free:
  "CHR 0x0D \<notin> set (attEscape s)" "CHR ''<'' \<notin> set (attEscape s)"
  "CHR 0x22 \<notin> set (attEscape s)"
  by (simp_all add: attEscape_def replaceAll_removes replaceAll_keeps_out)

lemma pieces_text:
  "CHR ''<'' \<notin> set X \<Longrightarrow>
   pieces (InText acc) (X @ CHR ''<'' # rest)
     = map_option ((#) (TextPiece (acc @ X))) (pieces (InTag []) rest)"
  by (induction X arbitrary: acc) auto

lemma pieces_quote:
  "CHR 0x22 \<notin> set X \<Longrightarrow> CHR ''<'' \<notin> set X \<Longrightarrow>
   pieces (InQuote acc) (X @ CHR 0x22 # rest) = pieces (InTag (acc @ X @ [CHR 0x22])) rest"
  by (induction X arbitrary: acc) auto

lemma attrs_value:
  "CHR 0x22 \<notin> set X \<Longrightarrow>
   attrs (InValue n acc) (X @ CHR 0x22 # rest)
     = (case decode True None (acc @ X) of
          None \<Rightarrow> None
        | Some v \<Rightarrow> map_option (\<lambda>(as, e). ((n, v) # as, e)) (attrs BeforeName rest))"
  by (induction X arbitrary: acc) auto

lemma cons_append_fun: "(\<lambda>x. c # z @ x) = (@) (c # z)"
  by auto

lemma decode_append:
  "decode a st A = Some a' \<Longrightarrow> decode a st (A @ B) = map_option (\<lambda>x. a' @ x) (decode a None B)"
proof (induction a st A arbitrary: a' rule: decode.induct)
  case (1 inAtt)
  then show ?case by (simp add: option.map_ident)
next
  case (2 inAtt r)
  then show ?case by simp
next
  case (3 inAtt c cs)
  then show ?case
    by (auto simp: option.map_comp comp_def cons_append_fun split: if_splits)
next
  case (4 inAtt r c cs)
  then show ?case
    by (auto simp: option.map_comp comp_def cons_append_fun split: if_splits option.splits)
qed

lemma char_of_codes:
  "char_of (13::nat) = CHR 0x0D" "char_of (10::nat) = CHR 0x0A" "char_of (9::nat) = CHR 0x09"
proof -
  have "(13::nat) = of_char (CHR 0x0D)" "(10::nat) = of_char (CHR 0x0A)"
    "(9::nat) = of_char (CHR 0x09)" by simp_all
  then show "char_of (13::nat) = CHR 0x0D" "char_of (10::nat) = CHR 0x0A"
    "char_of (9::nat) = CHR 0x09"
    by (simp_all only: char_of_char)
qed

lemma referenceChar_known:
  "referenceChar ''lt'' = Some CHR ''<''" "referenceChar ''gt'' = Some CHR ''>''"
  "referenceChar ''amp'' = Some CHR ''&''" "referenceChar ''quot'' = Some (CHR 0x22)"
  "referenceChar ''#xD'' = Some (CHR 0x0D)" "referenceChar ''#xA'' = Some (CHR 0x0A)"
  "referenceChar ''#x9'' = Some (CHR 0x09)"
  by (simp_all add: referenceChar_def charOfCode_def digitValue_def legalChar_def char_of_codes)

lemma elEscape_append: "elEscape (a @ b) = elEscape a @ elEscape b"
  by (simp add: elEscape_def)

lemma decode_elEscape_char:
  "legalChar c \<Longrightarrow> decode False None (elEscape [c]) = Some [c]"
  by (auto simp: elEscape_def referenceChar_known)

lemma decode_attEscape_char:
  "legalChar c \<Longrightarrow> decode True None (attEscape [c]) = Some [c]"
  by (auto simp: attEscape_def referenceChar_known isSpace_def)

lemma decode_elEscape:
  "list_all legalChar s \<Longrightarrow> decode False None (elEscape s) = Some s"
proof (induction s)
  case Nil
  then show ?case by (simp add: elEscape_def)
next
  case (Cons c s)
  have "elEscape (c # s) = elEscape [c] @ elEscape s"
    using elEscape_append [of "[c]" s] by simp
  with Cons decode_append [OF decode_elEscape_char, of c "elEscape s"] show ?case
    by simp
qed

lemma decode_attEscape:
  "list_all legalChar s \<Longrightarrow> decode True None (attEscape s) = Some s"
proof (induction s)
  case Nil
  then show ?case by (simp add: attEscape_def)
next
  case (Cons c s)
  have "attEscape (c # s) = attEscape [c] @ attEscape s"
    using attEscape_append [of "[c]" s] by simp
  with Cons decode_append [OF decode_attEscape_char, of c "attEscape s"] show ?case
    by simp
qed

lemma pieces_project_text:
  assumes "CHR ''<'' \<notin> set t"
  shows "pieces (InText []) (projectDescriptorAround (''<name>'' @ t @ ''</name>''))
           = Some (projectPieces [TagPiece ''name'', TextPiece t, TagPiece ''/name''])"
  using assms
  by (simp add: projectDescriptorAround_def projectPieces_def pieces_text)

lemma pieces_project_empty:
  "pieces (InText []) (projectDescriptorAround ''<name/>'')
           = Some (projectPieces [TagPiece ''name/''])"
  by (simp add: projectDescriptorAround_def projectPieces_def)

lemma parseTag_project:
  "parseTag ''?xml version=\"1.0\" encoding=\"UTF-8\"?'' = Some Declaration"
  "parseTag ''projectDescription'' = Some (StartTag ''projectDescription'' [])"
  "parseTag ''/projectDescription'' = Some (EndTag ''projectDescription'')"
  "parseTag ''name'' = Some (StartTag ''name'' [])"
  "parseTag ''name/'' = Some (EmptyTag ''name'' [])"
  "parseTag ''/name'' = Some (EndTag ''name'')"
  "parseTag ''comment/'' = Some (EmptyTag ''comment'' [])"
  "parseTag ''projects/'' = Some (EmptyTag ''projects'' [])"
  "parseTag ''buildSpec'' = Some (StartTag ''buildSpec'' [])"
  "parseTag ''/buildSpec'' = Some (EndTag ''buildSpec'')"
  "parseTag ''buildCommand'' = Some (StartTag ''buildCommand'' [])"
  "parseTag ''/buildCommand'' = Some (EndTag ''buildCommand'')"
  "parseTag ''arguments/'' = Some (EmptyTag ''arguments'' [])"
  "parseTag ''natures'' = Some (StartTag ''natures'' [])"
  "parseTag ''/natures'' = Some (EndTag ''natures'')"
  "parseTag ''nature'' = Some (StartTag ''nature'' [])"
  "parseTag ''/nature'' = Some (EndTag ''nature'')"
  by (simp_all add: parseTag_def isNameChar_def isSpace_def)

lemma build_project_text:
  assumes "t \<noteq> []" and "decode False None t = Some s"
  shows "build [] [] (projectPieces [TagPiece ''name'', TextPiece t, TagPiece ''/name''])
           = Some [parsedProject [ParsedText s]]"
  using assms
  by (simp add: projectPieces_def parsedProject_def parseTag_project legalChar_def
      isSpace_def)

lemma build_project_empty:
  "build [] [] (projectPieces [TagPiece ''name/'']) = Some [parsedProject []]"
  by (simp add: projectPieces_def parsedProject_def parseTag_project legalChar_def
      isSpace_def)

lemma nameText_parsedProject:
  "nameText (parsedProject [ParsedText s]) = Some s"
  "nameText (parsedProject []) = Some []"
  by (simp_all add: nameText_def parsedProject_def)

lemma pieces_classpath:
  assumes "CHR ''<'' \<notin> set x" "CHR 0x22 \<notin> set x"
  shows "pieces (InText []) (classpathDescriptorText x) = Some (classpathPieces x)"
  using assms
  by (simp add: classpathDescriptorText_def classpathPieces_def containerPath_def pieces_quote)

lemma decode_containerPath: "decode True None containerPath = Some containerPath"
  by (simp add: containerPath_def legalChar_def isSpace_def)

lemma parseTag_entry:
  assumes "CHR 0x22 \<notin> set x" and "decode True None x = Some v"
  shows "parseTag (''classpathentry kind=\"con\" path=\"'' @ containerPath @ x @ ''\"'')
           = Some (StartTag ''classpathentry'' [(''kind'', ''con''), (''path'', containerPath @ v)])"
proof -
  have d: "decode True None (containerPath @ x) = Some (containerPath @ v)"
    using decode_append [OF decode_containerPath, of x] assms(2) by simp
  have a: "attrs (InValue ''path'' []) (containerPath @ x @ ''\"'')
             = Some ([(''path'', containerPath @ v)], False)"
    using attrs_value [of "containerPath @ x" "''path''" "[]" "[]"] assms(1) d
    by (simp add: containerPath_def)
  show ?thesis
    by (simp add: parseTag_def isNameChar_def isSpace_def legalChar_def a)
qed

lemma parseTag_classpath:
  "parseTag ''classpath'' = Some (StartTag ''classpath'' [])"
  "parseTag ''/classpath'' = Some (EndTag ''classpath'')"
  "parseTag ''attributes'' = Some (StartTag ''attributes'' [])"
  "parseTag ''/attributes'' = Some (EndTag ''attributes'')"
  "parseTag ''/classpathentry'' = Some (EndTag ''classpathentry'')"
  "parseTag ''attribute name=\"module\" value=\"true\"/''
     = Some (EmptyTag ''attribute'' [(''name'', ''module''), (''value'', ''true'')])"
  "parseTag ''classpathentry kind=\"src\" path=\"src\"/''
     = Some (EmptyTag ''classpathentry'' [(''kind'', ''src''), (''path'', ''src'')])"
  "parseTag ''classpathentry kind=\"output\" path=\"bin\"/''
     = Some (EmptyTag ''classpathentry'' [(''kind'', ''output''), (''path'', ''bin'')])"
  by (simp_all add: parseTag_def isNameChar_def isSpace_def legalChar_def)

lemma build_classpath:
  assumes "CHR 0x22 \<notin> set x" and "decode True None x = Some v"
  shows "build [] [] (classpathPieces x) = Some [parsedClasspath (containerPath @ v)]"
  unfolding classpathPieces_def parsedClasspath_def
  by (simp add: parseTag_entry [OF assms] parseTag_project(1) parseTag_classpath
      legalChar_def isSpace_def del: append.simps)

lemma firstEntryPath_parsedClasspath:
  "firstEntryPath (parsedClasspath p) = Some p"
  by (simp add: firstEntryPath_def parsedClasspath_def)

lemma normalizeEOL_project:
  "CHR 0x0D \<notin> set t \<Longrightarrow>
   normalizeEOL (projectDescriptorAround (nameElement t)) = projectDescriptorAround (nameElement t)"
  by (rule normalizeEOL_id) (simp add: projectDescriptorAround_def nameElement_def)

lemma normalizeEOL_classpath:
  "CHR 0x0D \<notin> set x \<Longrightarrow>
   normalizeEOL (classpathDescriptorText x) = classpathDescriptorText x"
  by (rule normalizeEOL_id) (simp add: classpathDescriptorText_def)

lemma NUL_illegal: "\<not> legalChar (CHR 0x00)"
  by (simp add: legalChar_def)

lemma legal_no_NUL: "list_all legalChar s \<Longrightarrow> CHR 0x00 \<notin> set s"
  using NUL_illegal unfolding list_all_iff by blast

lemma elEscape_Nil_iff: "elEscape s = [] \<longleftrightarrow> s = []"
  by (cases s) (auto simp: elEscape_def)

lemma parseDocument_project:
  assumes "list_all legalChar s"
  shows "parseDocument (projectDescriptorAround (nameElement (elEscape s)))
           = Some (parsedProject (if s = [] then [] else [ParsedText s]))"
proof (cases "s = []")
  case True
  then show ?thesis
    using normalizeEOL_project [of "[]"]
    by (simp add: parseDocument_def elEscape_def nameElement_def pieces_project_empty
        build_project_empty)
next
  case False
  then have ne: "elEscape s \<noteq> []" by (simp add: elEscape_Nil_iff)
  from ne have n: "nameElement (elEscape s) = ''<name>'' @ elEscape s @ ''</name>''"
    by (simp add: nameElement_def)
  show ?thesis
    using False normalizeEOL_project [OF elEscape_free(1), of s]
      pieces_project_text [OF elEscape_free(2), of s]
      build_project_text [OF ne decode_elEscape [OF assms]]
    by (simp add: parseDocument_def n)
qed

lemma parseDocument_classpath:
  assumes "list_all legalChar v"
  shows "parseDocument (classpathDescriptorText (attEscape v))
           = Some (parsedClasspath (containerPath @ v))"
  using normalizeEOL_classpath [OF attEscape_free(1), of v]
    pieces_classpath [OF attEscape_free(2,3), of v]
    build_classpath [OF attEscape_free(3) decode_attEscape [OF assms]]
  by (simp add: parseDocument_def)

lemma roundTrip_failures:
  "\<not> roundTripName [CHR 0x00]" "\<not> roundTripName [CHR 0x01]" "\<not> roundTripPath [CHR 0x01]"
proof -
  show "\<not> roundTripName [CHR 0x00]"
    by (simp add: roundTripName_def createProjectFile_text eleText_def elEscape_def
        assertLegalChar_def)
  define x where "x = ''<name>'' @ [CHR 0x01] @ ''</name>''"
  have t: "createProjectFile [CHR 0x01] = Inr (projectDescriptorAround x)"
    by (simp add: createProjectFile_text eleText_def elEscape_def assertLegalChar_def
        nameElement_def x_def)
  have n: "normalizeEOL (projectDescriptorAround x) = projectDescriptorAround x"
    by (rule normalizeEOL_id) (simp add: projectDescriptorAround_def x_def)
  have p: "pieces (InText []) (projectDescriptorAround x)
             = Some (projectPieces [TagPiece ''name'', TextPiece [CHR 0x01], TagPiece ''/name''])"
    using pieces_project_text [of "[CHR 0x01]"] unfolding x_def by simp
  have b: "build [] [] (projectPieces [TagPiece ''name'', TextPiece [CHR 0x01], TagPiece ''/name'']) = None"
    by (simp add: projectPieces_def parseTag_project legalChar_def isSpace_def)
  show "\<not> roundTripName [CHR 0x01]"
    by (simp add: roundTripName_def t parseDocument_def n p b)
  have c: "createClassPathFile [CHR 0x01] = Inr (classpathDescriptorText [CHR 0x01])"
    by (simp add: createClassPathFile_text attEscape_def)
  have n': "normalizeEOL (classpathDescriptorText [CHR 0x01]) = classpathDescriptorText [CHR 0x01]"
    by (rule normalizeEOL_classpath) simp
  have p': "pieces (InText []) (classpathDescriptorText [CHR 0x01]) = Some (classpathPieces [CHR 0x01])"
    by (rule pieces_classpath) simp_all
  have q: "parseTag (''classpathentry kind=\"con\" path=\"'' @ containerPath @ [CHR 0x01] @ ''\"'') = None"
    by (simp add: parseTag_def isNameChar_def isSpace_def legalChar_def containerPath_def)
  have b': "build [] [] (classpathPieces [CHR 0x01]) = None"
    unfolding classpathPieces_def
    by (simp add: q parseTag_project(1) parseTag_classpath legalChar_def isSpace_def
        del: append.simps)
  show "\<not> roundTripPath [CHR 0x01]"
    by (simp add: roundTripPath_def c parseDocument_def n' p' b')
qed

section \<open>The builders in memory\<close>

lemma createIn_classpath:
  "createIn ''classpath'' enc m =
     (Inr (length (documents m), [0]),
      m\<lparr>documents := documents m @
         [\<lparr>version = ''1.0'', encoding = Some enc, children = [XMLElement ''classpath'' [] []]\<rparr>]\<rparr>)"
  by (simp add: createIn_def create_classpath)

lemma eleIn_last:
  assumes "illegalCharIndex nm = None"
  shows "eleIn (length ds, node) nm (m\<lparr>documents := ds @ [doc]\<rparr>) =
     (Inr (length ds, node @ [childCount node (children doc)]),
      m\<lparr>documents := ds @
         [doc\<lparr>children := modifyAt (appendChild (XMLElement nm [] [])) node (children doc)\<rparr>]\<rparr>)"
  by (simp add: eleIn_def documentAt_def storeDocument_def ele_literal [OF assms])

lemma attIn_last:
  "attIn (length ds, node) k v (m\<lparr>documents := ds @ [doc]\<rparr>) =
     (Inr (length ds, node), m\<lparr>documents := ds @ [att doc node k v]\<rparr>)"
  by (simp add: attIn_def documentAt_def storeDocument_def)

lemma endIn_last:
  "endIn (length ds, node) (m\<lparr>documents := ds @ [doc]\<rparr>) =
     (Inr (writeDocument doc), m\<lparr>documents := ds @ [doc]\<rparr>)"
  by (simp add: endIn_def documentAt_def)

lemma createClassPathFileIn_run:
  "createClassPathFileIn javaVersion m =
     (createClassPathFile javaVersion,
      m\<lparr>documents := documents m @
         [documentOf (classpathTree (containerPath @ attEscape javaVersion))]\<rparr>)"
  unfolding createClassPathFileIn_def createClassPathFile_tree containerPath_def [symmetric]
  by (simp add: thenIn_def createIn_classpath eleIn_last attIn_last endIn_last
      att_eq attEscape_append attEscape_containerPath attEscape_literals
      classpathTree_def documentOf_def)

lemma createProjectFileIn_run:
  "createProjectFileIn projectName m =
     (case createFromObject (projectObj projectName) ''UTF-8'' of
        Inl e \<Rightarrow> (Inl e, m)
      | Inr doc \<Rightarrow> (Inr (writeDocument doc), m\<lparr>documents := documents m @ [doc]\<rparr>))"
  by (simp add: createProjectFileIn_def thenIn_def createFromObjectIn_def endIn_def documentAt_def
      split: sum.splits)

lemma createProjectFileIn_result:
  "fst (createProjectFileIn projectName m) = createProjectFile projectName"
  by (simp add: createProjectFileIn_run createProjectFile_def bindE_def split: sum.splits)

lemma createProjectFileIn_memory:
  "outside (snd (createProjectFileIn projectName m)) = outside m"
  "prefix (documents m) (documents (snd (createProjectFileIn projectName m)))"
  by (simp_all add: createProjectFileIn_run split: sum.splits)

section \<open>The claims\<close>

text \<open>
  C1: when an entry exists at \<open>root/projectName\<close>, \<^verbatim>\<open>createProjectFolder\<close> shows the
  message \<open>AlreadyExists projectName\<close>, calls nothing but the check and leaves the
  filesystem as it was; so a second call with the arguments of a first call that returned
  leaves the files of the first call as they are.
\<close>

theorem createProjectFolder_existing:
  "(lookupPath w (root @ ''/'' @ projectName) \<noteq> None \<longrightarrow>
      createProjectFolder root projectName javaVersion w =
        (Inr (), w\<lparr>calls := calls w @ [ExistsSync (root @ ''/'' @ projectName)],
                    messages := messages w @ [AlreadyExists projectName]\<rparr>))
   \<and> (fst (createProjectFolder root projectName javaVersion w) = Inr () \<longrightarrow>
        (let w1 = snd (createProjectFolder root projectName javaVersion w);
             r2 = createProjectFolder root projectName javaVersion w1
         in fst r2 = Inr ()
            \<and> files (snd r2) = files w1
            \<and> messages (snd r2) = messages w1 @ [AlreadyExists projectName]
            \<and> calls (snd r2) = calls w1 @ [ExistsSync (root @ ''/'' @ projectName)]))"
proof (intro conjI impI)
  assume "lookupPath w (root @ ''/'' @ projectName) \<noteq> None"
  then show "createProjectFolder root projectName javaVersion w =
        (Inr (), w\<lparr>calls := calls w @ [ExistsSync (root @ ''/'' @ projectName)],
                    messages := messages w @ [AlreadyExists projectName]\<rparr>)"
    by (rule createProjectFolder_exists)
next
  assume ok: "fst (createProjectFolder root projectName javaVersion w) = Inr ()"
  define w1 where "w1 = snd (createProjectFolder root projectName javaVersion w)"
  from ok have "createProjectFolder root projectName javaVersion w = (Inr (), w1)"
    by (simp add: w1_def prod_eq_iff)
  then have "lookupPath w1 (root @ ''/'' @ projectName) \<noteq> None"
    by (rule createProjectFolder_then_exists)
  then have "createProjectFolder root projectName javaVersion w1 =
        (Inr (), w1\<lparr>calls := calls w1 @ [ExistsSync (root @ ''/'' @ projectName)],
                     messages := messages w1 @ [AlreadyExists projectName]\<rparr>)"
    by (rule createProjectFolder_exists)
  then show "let w1 = snd (createProjectFolder root projectName javaVersion w);
             r2 = createProjectFolder root projectName javaVersion w1
         in fst r2 = Inr ()
            \<and> files (snd r2) = files w1
            \<and> messages (snd r2) = messages w1 @ [AlreadyExists projectName]
            \<and> calls (snd r2) = calls w1 @ [ExistsSync (root @ ''/'' @ projectName)]"
    by (simp add: w1_def [symmetric] Let_def)
qed

theorem createProjectFolder_existing_witness:
  "createProjectFolder ''/'' ''tmp'' ''J'' exampleWorld =
     (Inr (), exampleWorld\<lparr>calls := [ExistsSync ''//tmp''],
                           messages := [''A folder with the name tmp already exists.'']\<rparr>)
   \<and> fst (createProjectFolder ''/tmp'' ''p'' ''J''
            (snd (createProjectFolder ''/tmp'' ''p'' ''J'' exampleWorld))) = Inr ()
   \<and> files (snd (createProjectFolder ''/tmp'' ''p'' ''J''
            (snd (createProjectFolder ''/tmp'' ''p'' ''J'' exampleWorld))))
     = files (snd (createProjectFolder ''/tmp'' ''p'' ''J'' exampleWorld))"
proof -
  have e: "lookupPath exampleWorld (''/'' @ ''/'' @ ''tmp'') \<noteq> None"
    by (simp add: lookupPath_def exampleWorld_def resolve_def resolveFrom_def)
  have c: "calls exampleWorld = []" "messages exampleWorld = []"
    by (simp_all add: exampleWorld_def)
  from createProjectFolder_existing [of exampleWorld "''/''" "''tmp''" "''J''"] e c
  have 1: "createProjectFolder ''/'' ''tmp'' ''J'' exampleWorld =
     (Inr (), exampleWorld\<lparr>calls := [ExistsSync ''//tmp''],
                           messages := [''A folder with the name tmp already exists.'']\<rparr>)"
    by (simp add: AlreadyExists_def)
  from createProjectFolder_existing [of exampleWorld "''/tmp''" "''p''" "''J''"] example_run
  have 2: "fst (createProjectFolder ''/tmp'' ''p'' ''J''
            (snd (createProjectFolder ''/tmp'' ''p'' ''J'' exampleWorld))) = Inr ()
   \<and> files (snd (createProjectFolder ''/tmp'' ''p'' ''J''
            (snd (createProjectFolder ''/tmp'' ''p'' ''J'' exampleWorld))))
     = files (snd (createProjectFolder ''/tmp'' ''p'' ''J'' exampleWorld))"
    by (simp add: Let_def)
  from 1 2 show ?thesis by blast
qed

text \<open>
  C2: in a well-formed filesystem with no entry at \<open>root/projectName\<close>, when the root
  is a directory and the name is a plain file name, \<^verbatim>\<open>createProjectFolder\<close>
  returns; and after it has returned (for any name), \<open>root/projectName\<close> is a
  directory with exactly the entries \<open>.project\<close>, \<open>.classpath\<close>, \<open>src\<close> and
  \<open>bin\<close>; \<open>src\<close> and \<open>bin\<close> are empty directories, and the two files hold what
  the builders return.
\<close>

theorem createProjectFolder_layout:
  assumes wf: "wellFormed (files w)"
    and ne: "lookupPath w (root @ ''/'' @ projectName) = None"
  shows "(isDirectory w root \<and> plainName projectName \<longrightarrow>
            fst (createProjectFolder root projectName javaVersion w) = Inr ())
         \<and> (fst (createProjectFolder root projectName javaVersion w) = Inr () \<longrightarrow>
              (let t = root @ ''/'' @ projectName;
                   w' = snd (createProjectFolder root projectName javaVersion w)
               in isDirectory w' t
                  \<and> readdirSync w' t = Inr {|''.project'', ''.classpath'', ''src'', ''bin''|}
                  \<and> isDirectory w' (t @ ''/src'') \<and> readdirSync w' (t @ ''/src'') = Inr {||}
                  \<and> isDirectory w' (t @ ''/bin'') \<and> readdirSync w' (t @ ''/bin'') = Inr {||}
                  \<and> (\<exists>xml. createProjectFile projectName = Inr xml
                        \<and> lookupPath w' (t @ ''/.project'') = Some (File xml))
                  \<and> (\<exists>xml. createClassPathFile javaVersion = Inr xml
                        \<and> lookupPath w' (t @ ''/.classpath'') = Some (File xml))))"
proof (intro conjI impI)
  assume "isDirectory w root \<and> plainName projectName"
  then show "fst (createProjectFolder root projectName javaVersion w) = Inr ()"
    using createProjectFolder_succeeds [OF wf _ _ _ _ _ _ ne, of javaVersion]
    by (simp add: plainName_def)
next
  assume "fst (createProjectFolder root projectName javaVersion w) = Inr ()"
  then show "let t = root @ ''/'' @ projectName;
                   w' = snd (createProjectFolder root projectName javaVersion w)
               in isDirectory w' t
                  \<and> readdirSync w' t = Inr {|''.project'', ''.classpath'', ''src'', ''bin''|}
                  \<and> isDirectory w' (t @ ''/src'') \<and> readdirSync w' (t @ ''/src'') = Inr {||}
                  \<and> isDirectory w' (t @ ''/bin'') \<and> readdirSync w' (t @ ''/bin'') = Inr {||}
                  \<and> (\<exists>xml. createProjectFile projectName = Inr xml
                        \<and> lookupPath w' (t @ ''/.project'') = Some (File xml))
                  \<and> (\<exists>xml. createClassPathFile javaVersion = Inr xml
                        \<and> lookupPath w' (t @ ''/.classpath'') = Some (File xml))"
    by (rule createProjectFolder_entries [OF wf ne])
qed

theorem createProjectFolder_layout_witness:
  "fst (createProjectFolder ''/tmp'' ''p'' ''J'' exampleWorld) = Inr ()
   \<and> readdirSync (snd (createProjectFolder ''/tmp'' ''p'' ''J'' exampleWorld)) ''/tmp/p''
     = Inr {|''.project'', ''.classpath'', ''src'', ''bin''|}
   \<and> readdirSync (snd (createProjectFolder ''/tmp'' ''p'' ''J'' exampleWorld)) ''/tmp/p/src''
     = Inr {||}
   \<and> readdirSync (snd (createProjectFolder ''/tmp'' ''p'' ''J'' exampleWorld)) ''/tmp/p/bin''
     = Inr {||}
   \<and> (\<exists>xml. createProjectFile ''p'' = Inr xml
        \<and> lookupPath (snd (createProjectFolder ''/tmp'' ''p'' ''J'' exampleWorld))
             ''/tmp/p/.project'' = Some (File xml))"
proof -
  have d: "isDirectory exampleWorld ''/tmp'' \<and> plainName ''p''"
    by (simp add: isDirectory_def exampleWorld_lookups plainName_def)
  from createProjectFolder_layout [of exampleWorld "''/tmp''" "''p''" "''J''"]
    exampleWorld_lookups(3,4) d
  show ?thesis
    by (simp add: Let_def)
qed

text \<open>
  C3: \<^verbatim>\<open>createProjectFile("Test-Project")\<close> returns the project descriptor of the spec
  with the name \<open>Test-Project\<close>, and the text ends with the closing tag, not a newline.
\<close>

theorem createProjectFile_Test_Project:
  "createProjectFile ''Test-Project'' = Inr (projectDescriptorText ''Test-Project'')
   \<and> last (projectDescriptorText ''Test-Project'') = CHR ''>''"
proof
  have "eleText ''Test-Project'' = Inr ''Test-Project''"
    by (simp add: eleText_def elEscape_def assertLegalChar_def)
  then show "createProjectFile ''Test-Project'' = Inr (projectDescriptorText ''Test-Project'')"
    by (simp add: createProjectFile_text projectDescriptorAround_name)
  show "last (projectDescriptorText ''Test-Project'') = CHR ''>''"
    by (simp add: projectDescriptorText_def)
qed

text \<open>
  C4: \<^verbatim>\<open>createClassPathFile("JavaSE-10")\<close> returns the classpath descriptor of the
  spec with the version \<open>JavaSE-10\<close>; for every version the document has the three
  entries \<open>con\<close> (its path ends with the escaped version, its child holds the attribute
  \<open>module\<close>), \<open>src\<close> and \<open>output\<close> in this order, and the text is the descriptor of
  the spec around the escaped version.
\<close>

theorem createClassPathFile_entries:
  "createClassPathFile ''JavaSE-10'' = Inr (classpathDescriptorText ''JavaSE-10'')
   \<and> createClassPathFile javaVersion =
       Inr (writeDocument (documentOf (classpathTree (containerPath @ attEscape javaVersion))))
   \<and> createClassPathFile javaVersion = Inr (classpathDescriptorText (attEscape javaVersion))"
proof -
  have "attEscape ''JavaSE-10'' = ''JavaSE-10''"
    by (simp add: attEscape_def)
  then have "createClassPathFile ''JavaSE-10'' = Inr (classpathDescriptorText ''JavaSE-10'')"
    by (simp only: createClassPathFile_text)
  then show ?thesis
    using createClassPathFile_tree createClassPathFile_text by blast
qed

text \<open>
  C5: for every string of legal XML characters, also with \<open><\<close>, \<open>&\<close> and quotes,
  the text of \<^verbatim>\<open>createProjectFile\<close> parses to a document whose \<open>name\<close> element has
  the string as its text, and the text of \<^verbatim>\<open>createClassPathFile\<close> parses to a
  document whose first entry has the container path followed by the string as its
  \<open>path\<close>.
\<close>

theorem builders_round_trip:
  assumes "list_all legalChar s"
  shows "roundTripName s \<and> roundTripPath s"
proof -
  have "createProjectFile s = Inr (projectDescriptorAround (nameElement (elEscape s)))"
    using eleText_cases(1) [OF legal_no_NUL [OF assms]] by (simp add: createProjectFile_text)
  then have "roundTripName s"
    using parseDocument_project [OF assms]
    by (simp add: roundTripName_def nameText_parsedProject)
  moreover have "roundTripPath s"
    using parseDocument_classpath [OF assms]
    by (simp add: roundTripPath_def createClassPathFile_text firstEntryPath_parsedClasspath)
  ultimately show ?thesis by simp
qed

theorem builders_round_trip_witness:
  "roundTripName ''a<b & \"c\" > d'' \<and> roundTripPath ''a<b & \"c\" > d''"
  using builders_round_trip [of "''a<b & \"c\" > d''"]
  by (simp add: legalChar_def)

theorem builders_round_trip_counterexample:
  "\<not> roundTripName [CHR 0x00] \<and> \<not> roundTripName [CHR 0x01] \<and> \<not> roundTripPath [CHR 0x01]"
  using roundTrip_failures by simp

text \<open>
  C6: \<^verbatim>\<open>createClassPathFile\<close> returns a text for every version.
  \<^verbatim>\<open>createProjectFile\<close> fails exactly when the library's check of characters,
  \<^verbatim>\<open>assertLegalChar\<close>, rejects the escaped name, with the error of this check; for the
  strings of this theory that is: it returns a text exactly for the names without a NUL
  character, and throws the \<open>Invalid character\<close> error for the others. A run of a
  builder in any memory gives the result that belongs to its argument, the same in
  every memory; it leaves the world of the filesystem as it was, and it leaves every
  document that was in the memory before as it was, the one it makes being added after
  them.
\<close>

theorem builders_total_up_to_NUL:
  "(\<exists>xml. createClassPathFile javaVersion = Inr xml)
   \<and> (createProjectFile projectName = Inl e
        \<longleftrightarrow> assertLegalChar (elEscape projectName) = Inl e)
   \<and> ((\<exists>xml. createProjectFile projectName = Inr xml) \<longleftrightarrow> CHR 0x00 \<notin> set projectName)
   \<and> ((\<exists>s i. createProjectFile projectName = Inl (InvalidCharacter s i))
        \<longleftrightarrow> CHR 0x00 \<in> set projectName)
   \<and> fst (createProjectFileIn projectName m) = createProjectFile projectName
   \<and> fst (createClassPathFileIn javaVersion m) = createClassPathFile javaVersion
   \<and> fst (createProjectFileIn projectName m) = fst (createProjectFileIn projectName m')
   \<and> fst (createClassPathFileIn javaVersion m) = fst (createClassPathFileIn javaVersion m')
   \<and> outside (snd (createProjectFileIn projectName m)) = outside m
   \<and> outside (snd (createClassPathFileIn javaVersion m)) = outside m
   \<and> prefix (documents m) (documents (snd (createProjectFileIn projectName m)))
   \<and> prefix (documents m) (documents (snd (createClassPathFileIn javaVersion m)))"
proof -
  have guard: "createProjectFile projectName = Inl e
                 \<longleftrightarrow> assertLegalChar (elEscape projectName) = Inl e"
    by (cases "assertLegalChar (elEscape projectName)")
       (simp_all add: createProjectFile_text eleText_def)
  have total:
    "(\<exists>xml. createClassPathFile javaVersion = Inr xml)
     \<and> ((\<exists>xml. createProjectFile projectName = Inr xml) \<longleftrightarrow> CHR 0x00 \<notin> set projectName)
     \<and> ((\<exists>s i. createProjectFile projectName = Inl (InvalidCharacter s i))
          \<longleftrightarrow> CHR 0x00 \<in> set projectName)"
  proof (cases "CHR 0x00 \<in> set projectName")
    case True
    from eleText_cases(2) [OF True] obtain i where
      "eleText projectName = Inl (InvalidCharacter (elEscape projectName) i)" by blast
    then have "createProjectFile projectName = Inl (InvalidCharacter (elEscape projectName) i)"
      by (simp add: createProjectFile_text)
    with True show ?thesis
      by (simp add: createClassPathFile_text)
  next
    case False
    from eleText_cases(1) [OF False]
    have "createProjectFile projectName
            = Inr (projectDescriptorAround (nameElement (elEscape projectName)))"
      by (simp add: createProjectFile_text)
    with False show ?thesis
      by (simp add: createClassPathFile_text)
  qed
  have runs:
    "fst (createProjectFileIn projectName m) = createProjectFile projectName"
    "fst (createClassPathFileIn javaVersion m) = createClassPathFile javaVersion"
    "fst (createProjectFileIn projectName m') = createProjectFile projectName"
    "fst (createClassPathFileIn javaVersion m') = createClassPathFile javaVersion"
    by (simp_all add: createProjectFileIn_result createClassPathFileIn_run)
  have frame:
    "outside (snd (createProjectFileIn projectName m)) = outside m"
    "outside (snd (createClassPathFileIn javaVersion m)) = outside m"
    "prefix (documents m) (documents (snd (createProjectFileIn projectName m)))"
    "prefix (documents m) (documents (snd (createClassPathFileIn javaVersion m)))"
    by (simp_all add: createProjectFileIn_memory createClassPathFileIn_run)
  from guard total runs frame show ?thesis
    by (simp only: simp_thms)
qed

theorem builders_total_up_to_NUL_witness:
  "(\<exists>xml. createProjectFile ''p'' = Inr xml)
   \<and> fst (createClassPathFileIn ''J'' exampleMemory) = createClassPathFile ''J''
   \<and> outside (snd (createProjectFileIn ''p'' exampleMemory)) = exampleWorld
   \<and> prefix (documents exampleMemory) (documents (snd (createClassPathFileIn ''J'' exampleMemory)))"
  using builders_total_up_to_NUL [of "''J''" "''p''" _ exampleMemory exampleMemory]
  by (simp add: exampleMemory_def)

theorem createProjectFile_NUL_counterexample:
  "createProjectFile [CHR 0x00] = Inl (InvalidCharacter [CHR 0x00] 0)"
  by (simp add: createProjectFile_text eleText_def elEscape_def assertLegalChar_def)

text \<open>
  C7: the calls of a run are a beginning of the sequence check, project directory,
  \<open>.project\<close>, \<open>.classpath\<close>, \<open>src\<close>, \<open>bin\<close>, each made after the one before has
  returned, and a file is written only after the call that makes the project directory;
  a run that finds no entry and returns makes the six calls in this order; a run that
  finds an entry makes the check only.
\<close>

theorem createProjectFolder_call_order:
  "(\<exists>cs xml1 xml2.
       calls (snd (createProjectFolder root projectName javaVersion w)) = calls w @ cs
       \<and> prefix cs (projectCalls (root @ ''/'' @ projectName) xml1 xml2)
       \<and> (\<forall>p c. WriteFileSync p c \<in> set cs \<longrightarrow>
              calledBefore (MkdirSync (root @ ''/'' @ projectName)) (WriteFileSync p c) cs))
   \<and> (lookupPath w (root @ ''/'' @ projectName) = None
        \<and> fst (createProjectFolder root projectName javaVersion w) = Inr () \<longrightarrow>
        (\<exists>xml1 xml2.
           createProjectFile projectName = Inr xml1
           \<and> createClassPathFile javaVersion = Inr xml2
           \<and> calls (snd (createProjectFolder root projectName javaVersion w))
               = calls w @ projectCalls (root @ ''/'' @ projectName) xml1 xml2))
   \<and> (lookupPath w (root @ ''/'' @ projectName) \<noteq> None \<longrightarrow>
        calls (snd (createProjectFolder root projectName javaVersion w))
          = calls w @ [ExistsSync (root @ ''/'' @ projectName)])"
proof (intro conjI impI)
  from createProjectFolder_calls_prefix [of root projectName javaVersion w]
  obtain cs xml1 xml2 where
    c: "calls (snd (createProjectFolder root projectName javaVersion w)) = calls w @ cs"
    and p: "prefix cs (projectCalls (root @ ''/'' @ projectName) xml1 xml2)"
    by blast
  from p have "\<forall>p c. WriteFileSync p c \<in> set cs \<longrightarrow>
              calledBefore (MkdirSync (root @ ''/'' @ projectName)) (WriteFileSync p c) cs"
    by (blast intro: write_after_mkdir)
  with c p show "\<exists>cs xml1 xml2.
       calls (snd (createProjectFolder root projectName javaVersion w)) = calls w @ cs
       \<and> prefix cs (projectCalls (root @ ''/'' @ projectName) xml1 xml2)
       \<and> (\<forall>p c. WriteFileSync p c \<in> set cs \<longrightarrow>
              calledBefore (MkdirSync (root @ ''/'' @ projectName)) (WriteFileSync p c) cs)"
    by blast
next
  assume a: "lookupPath w (root @ ''/'' @ projectName) = None
        \<and> fst (createProjectFolder root projectName javaVersion w) = Inr ()"
  define w' where "w' = snd (createProjectFolder root projectName javaVersion w)"
  from a have ok: "createProjectFolder root projectName javaVersion w = (Inr (), w')"
    by (simp add: w'_def prod_eq_iff)
  from a have ne: "lookupPath w (root @ ''/'' @ projectName) = None" by simp
  from createProjectFolder_created [OF ne ok] obtain loc xml1 xml2 where
    "createProjectFile projectName = Inr xml1"
    "createClassPathFile javaVersion = Inr xml2"
    "w' = w\<lparr>files := projectEntries loc xml1 xml2 (files w),
            calls := calls w @ projectCalls (root @ ''/'' @ projectName) xml1 xml2\<rparr>"
    by blast
  then show "\<exists>xml1 xml2.
           createProjectFile projectName = Inr xml1
           \<and> createClassPathFile javaVersion = Inr xml2
           \<and> calls (snd (createProjectFolder root projectName javaVersion w))
               = calls w @ projectCalls (root @ ''/'' @ projectName) xml1 xml2"
    by (simp add: w'_def [symmetric])
next
  assume "lookupPath w (root @ ''/'' @ projectName) \<noteq> None"
  then show "calls (snd (createProjectFolder root projectName javaVersion w))
          = calls w @ [ExistsSync (root @ ''/'' @ projectName)]"
    by (simp add: createProjectFolder_exists)
qed

theorem createProjectFolder_call_order_witness:
  "\<exists>xml1 xml2.
     createProjectFile ''p'' = Inr xml1
     \<and> createClassPathFile ''J'' = Inr xml2
     \<and> calls (snd (createProjectFolder ''/tmp'' ''p'' ''J'' exampleWorld))
         = [ExistsSync ''/tmp/p'',
            MkdirSync ''/tmp/p'',
            WriteFileSync ''/tmp/p/.project'' xml1,
            WriteFileSync ''/tmp/p/.classpath'' xml2,
            MkdirSync ''/tmp/p/src'',
            MkdirSync ''/tmp/p/bin'']"
proof -
  have c: "calls exampleWorld = []"
    by (simp add: exampleWorld_def)
  from createProjectFolder_call_order [of "''/tmp''" "''p''" "''J''" exampleWorld]
    exampleWorld_lookups(3) example_run c
  show ?thesis
    by (simp add: projectCalls_def)
qed

text \<open>
  C8: \<^verbatim>\<open>findFolderInWorkspace\<close> returns the path of the first folder, in list order,
  whose basename is \<open>baseName\<close>, and \<open>undefined\<close> when there is none; so it returns
  \<open>undefined\<close> for the empty list.
\<close>

theorem findFolderInWorkspace_first_match:
  "findFolderInWorkspace baseName folders =
     map_option (\<lambda>f. fsPath (uri f))
       (find (\<lambda>f. basename (fsPath (uri f)) = baseName) folders)
   \<and> findFolderInWorkspace baseName [] = None"
  unfolding findFolderInWorkspace_def findFolderLoop_find by simp

text \<open>
  C9: with an empty project name and a root that is a directory, the path \<open>root/\<close>
  resolves to the root itself, the check finds it and the call takes the
  \<open>AlreadyExists\<close> branch: it creates nothing and leaves the filesystem as it was.
\<close>

theorem createProjectFolder_empty_name:
  assumes "isDirectory w root"
  shows "resolve w (root @ ''/'' @ []) = resolve w root
         \<and> createProjectFolder root [] javaVersion w =
             (Inr (), w\<lparr>calls := calls w @ [ExistsSync (root @ ''/'')],
                         messages := messages w @ [AlreadyExists []]\<rparr>)
         \<and> files (snd (createProjectFolder root [] javaVersion w)) = files w"
proof -
  from isDirectory_slash [OF assms]
  have r: "resolve w (root @ ''/'' @ []) = resolve w root"
    and l: "lookupPath w (root @ ''/'' @ []) \<noteq> None"
    by simp_all
  from createProjectFolder_exists [OF l, of javaVersion] r show ?thesis
    by simp
qed

theorem createProjectFolder_empty_name_witness:
  "createProjectFolder ''/tmp'' [] ''JavaSE-10'' exampleWorld =
     (Inr (), exampleWorld\<lparr>calls := [ExistsSync ''/tmp/''],
                           messages := [''A folder with the name  already exists.'']\<rparr>)
   \<and> files (snd (createProjectFolder ''/tmp'' [] ''JavaSE-10'' exampleWorld)) = files exampleWorld"
proof -
  have d: "isDirectory exampleWorld ''/tmp''"
    by (simp add: isDirectory_def exampleWorld_lookups)
  have c: "calls exampleWorld = []" "messages exampleWorld = []"
    by (simp_all add: exampleWorld_def)
  from createProjectFolder_empty_name [OF d, of "''JavaSE-10''"] c show ?thesis
    by (simp add: AlreadyExists_def)
qed

text \<open>
  C10: with \<open>multi = false\<close>, \<^verbatim>\<open>getWorkspaceRoot\<close> returns the path of the first
  folder whatever \<open>baseName\<close> is and changes nothing, when the list is not empty; on
  the empty list it throws; it throws exactly when the list is empty.
\<close>

theorem getWorkspaceRoot_single:
  "(folders \<noteq> [] \<longrightarrow>
      getWorkspaceRoot folders False baseName w = (Inr (Some (fsPath (uri (folders ! 0)))), w))
   \<and> (folders = [] \<longrightarrow> getWorkspaceRoot folders False baseName w = (Inl TypeError, w))
   \<and> ((\<exists>e. fst (getWorkspaceRoot folders False baseName w) = Inl e) \<longleftrightarrow> folders = [])"
  by (cases folders) (simp_all add: getWorkspaceRoot_def)

theorem getWorkspaceRoot_single_witness:
  "getWorkspaceRoot
     [\<lparr>uri = \<lparr>fsPath = ''/home/u/ws''\<rparr>, name = ''ws'', index = 0\<rparr>] False (Some ''other'')
     exampleWorld
   = (Inr (Some ''/home/u/ws''), exampleWorld)
   \<and> getWorkspaceRoot [] False None exampleWorld = (Inl TypeError, exampleWorld)"
  using getWorkspaceRoot_single
          [of "[\<lparr>uri = \<lparr>fsPath = ''/home/u/ws''\<rparr>, name = ''ws'', index = 0\<rparr>]"
              "Some ''other''" exampleWorld]
        getWorkspaceRoot_single [of "[]" None exampleWorld]
  by simp
end
